theory Spec2Isabelle
  imports Main "HOL-Library.Sublist" "HOL-Library.AList"
begin


section \<open>Strings and numbers of the source language\<close>

text \<open>
  A source string is modelled as a \<^typ>\<open>string\<close>, one \<^typ>\<open>char\<close> per UTF-16 code unit
  of an ASCII text; literals of the source that hold characters beyond ASCII are spelled by
  their UTF-8 bytes.
\<close>

definition is_upper :: "char \<Rightarrow> bool" where
  "is_upper c = (65 \<le> (of_char c :: nat) \<and> (of_char c :: nat) \<le> 90)"

definition lower_char :: "char \<Rightarrow> char" where
  "lower_char c = (if is_upper c then char_of ((of_char c :: nat) + 32) else c)"

text \<open>\<^verbatim>\<open>String.prototype.toLowerCase\<close>: \<open>A\<close> to \<open>Z\<close> are mapped, every other code unit is kept.\<close>

definition toLowerCase :: "string \<Rightarrow> string" where
  "toLowerCase s = map lower_char s"

text \<open>The regular-expression class \<^verbatim>\<open>\d\<close>: the ten ASCII digits.\<close>

definition is_digit :: "char \<Rightarrow> bool" where
  "is_digit c = (48 \<le> (of_char c :: nat) \<and> (of_char c :: nat) \<le> 57)"

text \<open>A numeral: one or more decimal digits.\<close>

definition digits :: "string \<Rightarrow> bool" where
  "digits ds = (ds \<noteq> [] \<and> list_all is_digit ds)"

definition digit_val :: "char \<Rightarrow> int" where
  "digit_val c = int (of_char c) - 48"

text \<open>The whole number that a string of decimal digits denotes.\<close>

definition numeral_value :: "string \<Rightarrow> int" where
  "numeral_value s = foldl (\<lambda>n c. n * 10 + digit_val c) 0 s"

definition digit_char :: "nat \<Rightarrow> char" where
  "digit_char d = char_of (48 + d)"

text \<open>The decimal numeral of a whole number that is not negative, without leading zeros.\<close>

function show_pos :: "int \<Rightarrow> string" where
  "show_pos n =
     (if n < 10 then [digit_char (nat n)]
      else show_pos (n div 10) @ [digit_char (nat (n mod 10))])"
  by pat_completeness auto
termination
  by (relation "measure nat") auto

declare show_pos.simps [simp del]

definition show_nat :: "nat \<Rightarrow> string" where
  "show_nat n = show_pos (int n)"

text \<open>The decimal numeral of an integer.\<close>

definition show_int :: "int \<Rightarrow> string" where
  "show_int i = (if i < 0 then CHR ''-'' # show_pos (- i) else show_pos i)"

subsection \<open>Numbers\<close>

text \<open>
  A source number is a double-precision float. The numbers of this program are whole
  numbers, the two infinities and \<^verbatim>\<open>NaN\<close>: \<open>Num n\<close> stands for the double whose value is the
  whole number \<open>n\<close>. Every whole number of magnitude up to \<open>2 ^ 53\<close> is a double; beyond that
  the result of an operation is the double nearest to the exact result, ties going to the
  even significand, and infinite when the rounded magnitude reaches \<open>2 ^ 1024\<close>.
\<close>

datatype number = Num int | PosInf | NegInf | NaN

text \<open>The number of binary digits of a positive whole number.\<close>

function bit_length :: "int \<Rightarrow> nat" where
  "bit_length n = (if n \<le> 0 then 0 else Suc (bit_length (n div 2)))"
  by pat_completeness auto
termination
  by (relation "measure nat") auto

declare bit_length.simps [simp del]

text \<open>The quotient \<open>x / y\<close> rounded to the nearest whole number, a tie to the even one.\<close>

definition round_half_even :: "int \<Rightarrow> int \<Rightarrow> int" where
  "round_half_even x y =
     (let d = x div y; r = x mod y
      in if y < 2 * r \<or> (2 * r = y \<and> odd d) then d + 1 else d)"

text \<open>
  The double nearest to a whole number that is not negative, or \<open>None\<close> when that is
  infinite: from \<open>2 ^ 53\<close> on, a number of \<open>b\<close> binary digits is rounded to a whole multiple
  of \<open>2 ^ (b - 53)\<close>.
\<close>

definition fl_pos :: "int \<Rightarrow> int option" where
  "fl_pos n =
     (if n < 2 ^ 53 then Some n
      else
        let e = bit_length n - 53;
            m = round_half_even n (2 ^ e)
        in if 1024 < bit_length (m * 2 ^ e) then None else Some (m * 2 ^ e))"

definition fl :: "int \<Rightarrow> number" where
  "fl i =
     (if 0 \<le> i then (case fl_pos i of Some n \<Rightarrow> Num n | None \<Rightarrow> PosInf)
      else (case fl_pos (- i) of Some n \<Rightarrow> Num (- n) | None \<Rightarrow> NegInf))"

text \<open>The product \<^verbatim>\<open>x * c\<close> with a positive whole constant \<open>c\<close>.\<close>

fun js_times :: "number \<Rightarrow> int \<Rightarrow> number" where
  "js_times (Num a) c = fl (a * c)"
| "js_times PosInf c = PosInf"
| "js_times NegInf c = NegInf"
| "js_times NaN c = NaN"

text \<open>The sum \<^verbatim>\<open>x + y\<close>.\<close>

fun js_plus :: "number \<Rightarrow> number \<Rightarrow> number" where
  "js_plus (Num a) (Num b) = fl (a + b)"
| "js_plus NaN y = NaN"
| "js_plus x NaN = NaN"
| "js_plus PosInf NegInf = NaN"
| "js_plus NegInf PosInf = NaN"
| "js_plus PosInf y = PosInf"
| "js_plus NegInf y = NegInf"
| "js_plus (Num a) PosInf = PosInf"
| "js_plus (Num a) NegInf = NegInf"

text \<open>The difference \<^verbatim>\<open>a - b\<close> of two whole numbers.\<close>

definition js_minus :: "int \<Rightarrow> int \<Rightarrow> number" where
  "js_minus a b = fl (a - b)"

text \<open>The comparison \<^verbatim>\<open>x > c\<close> with a whole constant \<open>c\<close>; it is false for \<^verbatim>\<open>NaN\<close>.\<close>

fun js_gt :: "number \<Rightarrow> int \<Rightarrow> bool" where
  "js_gt (Num a) c = (c < a)"
| "js_gt PosInf c = True"
| "js_gt NegInf c = False"
| "js_gt NaN c = False"

text \<open>The test \<^verbatim>\<open>!x\<close>: it holds for zero and for \<^verbatim>\<open>NaN\<close>.\<close>

fun js_falsy :: "number \<Rightarrow> bool" where
  "js_falsy (Num a) = (a = 0)"
| "js_falsy NaN = True"
| "js_falsy PosInf = False"
| "js_falsy NegInf = False"

text \<open>
  The double nearest to the quotient \<open>a / b\<close> of two positive whole numbers, as a pair
  \<open>(m, k)\<close> that stands for \<open>m / 2 ^ k\<close>: with \<open>2 ^ l \<le> a / b < 2 ^ (l + 1)\<close> the quotient is
  rounded to a whole multiple of \<open>2 ^ (l - 52)\<close>.
\<close>

definition fl_quotient :: "int \<Rightarrow> int \<Rightarrow> int \<times> nat" where
  "fl_quotient a b =
     (let t = int (bit_length a) - int (bit_length b);
          l = (if b * 2 ^ nat t \<le> a * 2 ^ nat (- t) then t else t - 1);
          e = l - 52
      in if 0 \<le> e then (round_half_even a (b * 2 ^ nat e) * 2 ^ nat e, 0)
         else (round_half_even (a * 2 ^ nat (- e)) b, nat (- e)))"

text \<open>
  \<^verbatim>\<open>Math.floor(x / c)\<close> for a positive whole constant \<open>c\<close>. For a dividend of magnitude below
  \<open>2 ^ 53\<close> the rounding of the quotient does not reach the next whole number (the quotient
  is at least \<open>1 / c\<close> away from it, the rounding error is smaller), so that the result is the
  floor of the exact quotient.
\<close>

fun math_floor_div :: "number \<Rightarrow> int \<Rightarrow> number" where
  "math_floor_div (Num a) c =
     (if \<bar>a\<bar> < 2 ^ 53 then Num (a div c)
      else
        let (m, k) = fl_quotient \<bar>a\<bar> c
        in if 0 \<le> a then Num (m div 2 ^ k)
           else Num (- ((m + 2 ^ k - 1) div 2 ^ k)))"
| "math_floor_div PosInf c = PosInf"
| "math_floor_div NegInf c = NegInf"
| "math_floor_div NaN c = NaN"

text \<open>
  The remainder \<^verbatim>\<open>x % c\<close> for a positive whole constant \<open>c\<close>: exact, with the sign of the
  dividend, and \<^verbatim>\<open>NaN\<close> for an infinite dividend.
\<close>

fun js_rem :: "number \<Rightarrow> int \<Rightarrow> number" where
  "js_rem (Num a) c = Num (if a < 0 then - ((- a) mod c) else a mod c)"
| "js_rem PosInf c = NaN"
| "js_rem NegInf c = NaN"
| "js_rem NaN c = NaN"

text \<open>
  The shortest decimal numeral that denotes a given double \<open>x\<close>: digits \<open>s\<close> and a number \<open>j\<close>
  of zeros after them such that \<open>s * 10 ^ j\<close> rounds to \<open>x\<close>, with \<open>j\<close> as large as possible;
  of two such \<open>s\<close> the one nearer to \<open>x\<close>, and of two equally near ones the even one.
\<close>

fun shortest_digits :: "int \<Rightarrow> nat \<Rightarrow> int \<times> nat" where
  "shortest_digits x 0 = (x, 0)"
| "shortest_digits x (Suc j) =
     (let p = 10 ^ Suc j;
          lo = x div p;
          hi = lo + 1;
          lo_ok = (0 < lo \<and> fl_pos (lo * p) = Some x);
          hi_ok = (fl_pos (hi * p) = Some x)
      in if lo_ok \<and> hi_ok then
           (if x - lo * p < hi * p - x then (lo, Suc j)
            else if hi * p - x < x - lo * p then (hi, Suc j)
            else if even lo then (lo, Suc j) else (hi, Suc j))
         else if lo_ok then (lo, Suc j)
         else if hi_ok then (hi, Suc j)
         else shortest_digits x j)"

text \<open>
  Number-to-string conversion of a positive double from \<open>2 ^ 53\<close> on: the shortest digits,
  followed by zeros up to 21 places and in exponent notation beyond.
\<close>

definition show_large :: "int \<Rightarrow> string" where
  "show_large x =
     (let (s, j) = shortest_digits x (length (show_pos x));
          ds = show_pos s;
          n = length ds + j
      in if n \<le> 21 then ds @ replicate j CHR ''0''
         else (case ds of
                 [] \<Rightarrow> []
               | d # rest \<Rightarrow> (if rest = [] then [d] else d # CHR ''.'' # rest)
                             @ ''e+'' @ show_pos (int (n - 1))))"

text \<open>Number-to-string conversion, as a template literal does it.\<close>

fun number_to_string :: "number \<Rightarrow> string" where
  "number_to_string (Num a) =
     (if \<bar>a\<bar> < 2 ^ 53 then show_int a
      else if 0 \<le> a then show_large a
      else CHR ''-'' # show_large (- a))"
| "number_to_string PosInf = ''Infinity''"
| "number_to_string NegInf = ''-Infinity''"
| "number_to_string NaN = ''NaN''"

text \<open>
  \<^verbatim>\<open>parseInt(s, 10)\<close> on a non-empty string of decimal digits, the only arguments it is
  given in this program (a \<^verbatim>\<open>\d+\<close> capture or the literal \<^verbatim>\<open>'0'\<close>): the double nearest to the
  number the digits denote. (For a numeral of more than 20 significant digits the language
  lets an implementation read the digits after the 20th as zeros.)
\<close>

definition parseInt :: "string \<Rightarrow> number" where
  "parseInt s = fl (numeral_value s)"

subsection \<open>String operations\<close>

text \<open>
  \<^verbatim>\<open>String.prototype.includes\<close>: the argument occurs as a contiguous run of the receiver.
\<close>

fun starts_with :: "string \<Rightarrow> string \<Rightarrow> bool" where
  "starts_with s [] = True"
| "starts_with [] (k # ks) = False"
| "starts_with (c # s) (k # ks) = (c = k \<and> starts_with s ks)"

fun includes_str :: "string \<Rightarrow> string \<Rightarrow> bool" where
  "includes_str [] k = (k = [])"
| "includes_str (c # s) k = (starts_with (c # s) k \<or> includes_str s k)"

text \<open>\<^verbatim>\<open>Array.prototype.join\<close>.\<close>

fun join :: "string list \<Rightarrow> string \<Rightarrow> string" where
  "join [] sep = []"
| "join [x] sep = x"
| "join (x # y # ys) sep = x @ sep @ join (y # ys) sep"

section \<open>Durations\<close>

text \<open>
  One optional group \<^verbatim>\<open>(?:(\d+)u)?\<close> of the pattern, tried at the head of the input: the
  greedy run of digits, then the unit letter. It yields the capture and the input left;
  when the group does not match it is skipped and consumes nothing.
\<close>

definition match_group :: "char \<Rightarrow> string \<Rightarrow> string option \<times> string" where
  "match_group u s =
     (let ds = takeWhile is_digit s in
      case dropWhile is_digit s of
        [] \<Rightarrow> (None, s)
      | c # r \<Rightarrow> if ds \<noteq> [] \<and> c = u then (Some ds, r) else (None, s))"

text \<open>
  The pattern \<^verbatim>\<open>/^(?:(\d+)h)?(?:(\d+)m)?$/\<close> against the whole input: the two captures of a
  match, or \<open>None\<close> when there is no match.
\<close>

definition regex_match :: "string \<Rightarrow> (string option \<times> string option) option" where
  "regex_match s =
     (let (g1, r1) = match_group CHR ''h'' s;
          (g2, r2) = match_group CHR ''m'' r1
      in if r2 = [] then Some (g1, g2) else None)"

definition parseDuration :: "string \<Rightarrow> number option" where
  "parseDuration duration =
     (case regex_match (toLowerCase duration) of
        None \<Rightarrow> None
      | Some (g1, g2) \<Rightarrow>
          if g1 = None \<and> g2 = None then None
          else
            let hours = parseInt (case g1 of Some ds \<Rightarrow> ds | None \<Rightarrow> ''0'');
                minutes = parseInt (case g2 of Some ds \<Rightarrow> ds | None \<Rightarrow> ''0'')
            in Some (js_times (js_times (js_plus (js_times hours 60) minutes) 60) 1000))"

definition formatDuration :: "number \<Rightarrow> string" where
  "formatDuration ms =
     (let minutes = math_floor_div ms 60000;
          hours = math_floor_div minutes 60;
          remainingMinutes = js_rem minutes 60
      in if js_gt hours 0 \<and> js_gt remainingMinutes 0
           then number_to_string hours @ ''h '' @ number_to_string remainingMinutes @ ''m''
         else if js_gt hours 0 then number_to_string hours @ ''h''
         else number_to_string minutes @ ''m'')"

subsection \<open>The duration syntax in the words of the specification\<close>

text \<open>
  A component of a duration string is optional; when present it is an integer immediately
  followed by its unit letter.
\<close>

fun part :: "string option \<Rightarrow> char \<Rightarrow> string" where
  "part None u = []"
| "part (Some ds) u = ds @ [u]"

fun valid_part :: "string option \<Rightarrow> bool" where
  "valid_part None = True"
| "valid_part (Some ds) = digits ds"

text \<open>The number a decimal numeral denotes, by place value.\<close>

definition decimal :: "string \<Rightarrow> int" where
  "decimal ds = (\<Sum>i<length ds. digit_val (ds ! i) * 10 ^ (length ds - Suc i))"

fun amount :: "string option \<Rightarrow> int" where
  "amount None = 0"
| "amount (Some ds) = decimal ds"

text \<open>
  The normalized rendering of a number of whole minutes in the words of the specification:
  \<^verbatim>\<open>{h}h {m}m\<close> when both are nonzero, \<^verbatim>\<open>{h}h\<close> when only hours, else \<^verbatim>\<open>{m}m\<close>.
\<close>

definition normalized :: "nat \<Rightarrow> string" where
  "normalized t =
     (let h = t div 60; m = t mod 60
      in if h \<noteq> 0 \<and> m \<noteq> 0 then show_nat h @ ''h '' @ show_nat m @ ''m''
         else if h \<noteq> 0 then show_nat h @ ''h''
         else show_nat m @ ''m'')"

definition drop_spaces :: "string \<Rightarrow> string" where
  "drop_spaces s = filter (\<lambda>c. c \<noteq> CHR '' '') s"

section \<open>Urgency classifier\<close>

text \<open>
  Values of the source language as far as the classifier handles them: what
  \<^verbatim>\<open>JSON.parse\<close> can yield, and the object literals of the fallback paths. An object is the
  list of its own properties in creation order; an array carries its elements and the own
  properties added to it afterwards.
\<close>

datatype jsval =
    JNull
  | JBool bool
  | JNum int
  | JStr string
  | JArr "jsval list" "(string \<times> jsval) list"
  | JObj "(string \<times> jsval) list"

datatype js_error = TypeError | SyntaxError | RangeError | Error string | ExternalFailure

text \<open>
  The property read \<^verbatim>\<open>v.k\<close>, for a name \<open>k\<close> that no built-in prototype defines and that is
  neither an array index nor \<^verbatim>\<open>length\<close> (the classifier reads \<^verbatim>\<open>urgency\<close>, its callers read
  \<^verbatim>\<open>shouldInterrupt\<close> and \<^verbatim>\<open>reason\<close>). \<open>Inr None\<close> is \<^verbatim>\<open>undefined\<close>; reading from \<^verbatim>\<open>null\<close> throws.
\<close>

fun get_prop :: "jsval \<Rightarrow> string \<Rightarrow> js_error + jsval option" where
  "get_prop JNull k = Inl TypeError"
| "get_prop (JObj ps) k = Inr (map_of ps k)"
| "get_prop (JArr xs ps) k = Inr (map_of ps k)"
| "get_prop (JBool b) k = Inr None"
| "get_prop (JNum n) k = Inr None"
| "get_prop (JStr s) k = Inr None"

text \<open>
  The assignment \<^verbatim>\<open>v.k = x\<close> for such a name. The module is strict-mode code, so that the
  assignment throws on a primitive receiver as it does on \<^verbatim>\<open>null\<close>.
\<close>

fun set_prop :: "jsval \<Rightarrow> string \<Rightarrow> jsval \<Rightarrow> js_error + jsval" where
  "set_prop (JObj ps) k x = Inr (JObj (AList.update k x ps))"
| "set_prop (JArr xs ps) k x = Inr (JArr xs (AList.update k x ps))"
| "set_prop JNull k x = Inl TypeError"
| "set_prop (JBool b) k x = Inl TypeError"
| "set_prop (JNum n) k x = Inl TypeError"
| "set_prop (JStr s) k x = Inl TypeError"

text \<open>A content block of the oracle's response: of type \<^verbatim>\<open>text\<close>, or of another type.\<close>

datatype content_block = TextBlock string | OtherBlock

text \<open>The awaited call \<^verbatim>\<open>anthropic.messages.create\<close>: it rejects, or resolves to a response.\<close>

datatype oracle_outcome = Rejects | Responds "content_block list"

text \<open>
  What the classifier takes from its surroundings: the configured key, the outcome of the
  one oracle call (the rendered prompt only feeds that call, and the outcome is an input
  here), and \<^verbatim>\<open>JSON.parse\<close>, with \<open>None\<close> for a text it rejects.
\<close>

record classifier_env =
  ANTHROPIC_API_KEY :: "string option"
  messages_create :: oracle_outcome
  JSON_parse :: "string \<Rightarrow> jsval option"

definition urgentKeywords :: "string list" where
  "urgentKeywords =
     [''urgent'', ''emergency'', ''asap'', ''down'', ''outage'', ''critical'',
      ''immediately'', ''911'', ''help now'']"

definition hasUrgentKeyword :: "string \<Rightarrow> bool" where
  "hasUrgentKeyword messageText =
     (let lowerMessage = toLowerCase messageText
      in list_ex (\<lambda>keyword. includes_str lowerMessage keyword) urgentKeywords)"

text \<open>The object literal \<^verbatim>\<open>{ urgency, reason, shouldInterrupt }\<close>.\<close>

definition ClassificationResult :: "string \<Rightarrow> string \<Rightarrow> bool \<Rightarrow> jsval" where
  "ClassificationResult u r b =
     JObj [(''urgency'', JStr u), (''reason'', JStr r), (''shouldInterrupt'', JBool b)]"

text \<open>\<^verbatim>\<open>!process.env.ANTHROPIC_API_KEY\<close>: the variable is unset or empty.\<close>

definition unconfigured :: "string option \<Rightarrow> bool" where
  "unconfigured k = (case k of None \<Rightarrow> True | Some v \<Rightarrow> v = [])"

text \<open>The body of the \<^verbatim>\<open>try\<close> block: the value it returns, or the error it throws.\<close>

definition classify_try :: "classifier_env \<Rightarrow> js_error + jsval" where
  "classify_try env =
     (case messages_create env of
        Rejects \<Rightarrow> Inl ExternalFailure
      | Responds content \<Rightarrow>
          (case content of
             [] \<Rightarrow> Inl TypeError
           | OtherBlock # _ \<Rightarrow> Inl (Error ''Unexpected response type'')
           | TextBlock text # _ \<Rightarrow>
               (case JSON_parse env text of
                  None \<Rightarrow> Inl SyntaxError
                | Some result \<Rightarrow>
                    (case get_prop result ''urgency'' of
                       Inl e \<Rightarrow> Inl e
                     | Inr u \<Rightarrow>
                         set_prop result ''shouldInterrupt''
                           (JBool (u = Some (JStr ''urgent'')))))))"

definition classifyMessage ::
  "classifier_env \<Rightarrow> string \<Rightarrow> string \<Rightarrow> string \<Rightarrow> js_error + jsval" where
  "classifyMessage env messageText channelName senderName =
     (if unconfigured (ANTHROPIC_API_KEY env) then
        (if hasUrgentKeyword messageText
           then Inr (ClassificationResult ''urgent'' ''Contains urgent keywords'' True)
         else Inr (ClassificationResult ''low''
                     ''Default classification (no AI key configured)'' False))
      else
        (case classify_try env of
           Inr result \<Rightarrow> Inr result
         | Inl error \<Rightarrow>
             if hasUrgentKeyword messageText
               then Inr (ClassificationResult ''urgent''
                           ''Contains urgent keywords (AI classification failed)'' True)
             else Inr (ClassificationResult ''medium''
                         ''Default classification (AI classification failed)'' False)))"

text \<open>
  The ways the oracle call fails that the specification names: the call throws, the first
  block is not text, or the text is not JSON. (A response without any block and a text that
  parses to \<^verbatim>\<open>null\<close> or to a primitive value make the \<^verbatim>\<open>try\<close> block throw as well.)
\<close>

definition oracle_fails :: "classifier_env \<Rightarrow> bool" where
  "oracle_fails env =
     (case messages_create env of
        Rejects \<Rightarrow> True
      | Responds [] \<Rightarrow> False
      | Responds (OtherBlock # _) \<Rightarrow> True
      | Responds (TextBlock text # _) \<Rightarrow> JSON_parse env text = None)"

text \<open>
  Only an urgent result interrupts: the \<^verbatim>\<open>shouldInterrupt\<close> property of a result is the
  boolean that tells whether its \<^verbatim>\<open>urgency\<close> property is the string \<^verbatim>\<open>'urgent'\<close>.
\<close>

definition interrupt_invariant :: "jsval \<Rightarrow> bool" where
  "interrupt_invariant r =
     (get_prop r ''shouldInterrupt'' =
        Inr (Some (JBool (get_prop r ''urgency'' = Inr (Some (JStr ''urgent''))))))"

section \<open>The session store\<close>

text \<open>
  Rows of the two tables. A timestamp is a number of milliseconds since the epoch (the
  source stores its ISO rendering, which orders the same way); a row identity is generated
  by the store and modelled as a number drawn from a counter.
\<close>

record FocusSession =
  fs_id :: nat
  user_id :: string
  started_at :: int
  ends_at :: int
  is_active :: bool
  created_at :: int

record HeldItem =
  item_id :: nat
  session_id :: nat
  channel_id :: string
  channel_name :: string
  sender_id :: string
  sender_name :: string
  message_text :: string
  message_ts :: string
  urgency :: string
  classification_reason :: string
  received_at :: int

text \<open>
  What one call of \<open>sendDM\<close> meets at the chat platform: opening the conversation throws,
  the opened conversation has no channel identity, posting the message throws, or the
  message is delivered.
\<close>

datatype dm_reply = OpenFails | NoChannel | PostFails | Delivered

text \<open>
  The world a handler runs in: the two tables and the identity counter of the store, the
  clock with the time that passes before each of its next readings, for each next request
  to the store whether it fails, for each next direct message what it meets, and the
  direct messages delivered so far (recipient and text). An exhausted schedule means
  that no time passes, no request fails and every message is delivered.
\<close>

record world =
  focus_sessions :: "FocusSession list"
  held_items :: "HeldItem list"
  next_id :: nat
  clock :: int
  elapsed :: "nat list"
  db_faults :: "bool list"
  dm_replies :: "dm_reply list"
  sent_dms :: "(string \<times> string) list"

text \<open>\<^verbatim>\<open>new Date()\<close> and \<^verbatim>\<open>Date.now()\<close>: a reading of the clock.\<close>

definition read_clock :: "world \<Rightarrow> int \<times> world" where
  "read_clock w =
     (case elapsed w of
        [] \<Rightarrow> (clock w, w)
      | d # ds \<Rightarrow> (clock w + int d, w\<lparr>clock := clock w + int d, elapsed := ds\<rparr>))"

text \<open>A request to the store: whether it fails. The client reports a failure, it does not throw.\<close>

definition db_request :: "world \<Rightarrow> bool \<times> world" where
  "db_request w =
     (case db_faults w of
        [] \<Rightarrow> (False, w)
      | f # fs \<Rightarrow> (f, w\<lparr>db_faults := fs\<rparr>))"

text \<open>
  \<^verbatim>\<open>.order('started_at', { ascending: false }).limit(1).single()\<close>: the row started last
  (among rows started at the same instant, the one stored first), or no row.
\<close>

fun most_recent :: "FocusSession list \<Rightarrow> FocusSession option" where
  "most_recent [] = None"
| "most_recent (s # ss) =
     (case most_recent ss of
        None \<Rightarrow> Some s
      | Some t \<Rightarrow> if started_at s < started_at t then Some t else Some s)"

definition getActiveFocusSession :: "string \<Rightarrow> world \<Rightarrow> FocusSession option \<times> world" where
  "getActiveFocusSession userId w =
     (let (now, w1) = read_clock w;
          (error, w2) = db_request w1
      in if error then (None, w2)
         else (most_recent
                 (filter (\<lambda>s. user_id s = userId \<and> is_active s \<and> now < ends_at s)
                    (focus_sessions w2)), w2))"

text \<open>\<^verbatim>\<open>.update({ is_active: false }).eq('id', id)\<close>; its outcome is not looked at.\<close>

definition deactivate :: "nat \<Rightarrow> world \<Rightarrow> world" where
  "deactivate sid w =
     (let (error, w1) = db_request w
      in if error then w1
         else w1\<lparr>focus_sessions :=
                   map (\<lambda>s. if fs_id s = sid then s\<lparr>is_active := False\<rparr> else s)
                     (focus_sessions w1)\<rparr>)"

text \<open>
  \<^verbatim>\<open>.select('*').eq('session_id', id).order('received_at', { ascending: true })\<close>: the rows,
  or no data when the request fails.
\<close>

definition select_held_items :: "nat \<Rightarrow> world \<Rightarrow> HeldItem list option \<times> world" where
  "select_held_items sid w =
     (let (error, w1) = db_request w
      in if error then (None, w1)
         else (Some (sort_key received_at
                       (filter (\<lambda>i. session_id i = sid) (held_items w1))), w1))"

definition endFocusSession :: "string \<Rightarrow> world \<Rightarrow> HeldItem list \<times> world" where
  "endFocusSession userId w =
     (let (session, w1) = getActiveFocusSession userId w
      in case session of
           None \<Rightarrow> ([], w1)
         | Some s \<Rightarrow>
             let w2 = deactivate (fs_id s) w1;
                 (heldItems, w3) = select_held_items (fs_id s) w2
             in (case heldItems of None \<Rightarrow> [] | Some items \<Rightarrow> items, w3))"

text \<open>
  \<^verbatim>\<open>.insert({...}).select().single()\<close> on the sessions table: the stored row, or no data
  when the request fails. The store fills in the identity and the creation time.
\<close>

definition insert_session ::
  "string \<Rightarrow> int \<Rightarrow> int \<Rightarrow> world \<Rightarrow> FocusSession option \<times> world" where
  "insert_session userId startedAt endsAt w =
     (let (error, w1) = db_request w
      in if error then (None, w1)
         else
           let row = \<lparr>fs_id = next_id w1, user_id = userId, started_at = startedAt,
                      ends_at = endsAt, is_active = True, created_at = clock w1\<rparr>
           in (Some row,
               w1\<lparr>focus_sessions := focus_sessions w1 @ [row], next_id := Suc (next_id w1)\<rparr>))"

text \<open>
  \<^verbatim>\<open>new Date(t)\<close>: the time value of the date, or \<open>None\<close> for an invalid date; a time value is
  a whole number of magnitude up to \<open>8.64 * 10 ^ 15\<close>. The durations of this program are
  whole numbers of milliseconds, the results of \<open>parseDuration\<close>; a fraction, which
  \<^verbatim>\<open>new Date\<close> cuts off, has no counterpart in \<open>number\<close>.
\<close>

fun new_Date :: "number \<Rightarrow> int option" where
  "new_Date (Num t) = (if \<bar>t\<bar> \<le> 8640000000000000 then Some t else None)"
| "new_Date PosInf = None"
| "new_Date NegInf = None"
| "new_Date NaN = None"

text \<open>
  \<open>startFocusSession\<close>. The end date is built first, valid or not; the prior session is
  ended; then the row to insert is built, where \<^verbatim>\<open>endsAt.toISOString()\<close> throws a
  \<^verbatim>\<open>RangeError\<close> for an invalid date, before any request to insert is made.
\<close>

definition startFocusSession ::
  "string \<Rightarrow> number \<Rightarrow> world \<Rightarrow> (js_error + FocusSession option) \<times> world" where
  "startFocusSession userId durationMs w =
     (let (now, w1) = read_clock w;
          endsAt = new_Date (js_plus (Num now) durationMs);
          (drained, w2) = endFocusSession userId w1
      in case endsAt of
           None \<Rightarrow> (Inl RangeError, w2)
         | Some t \<Rightarrow>
             let (data, w3) = insert_session userId now t w2
             in (Inr data, w3))"

section \<open>The \<open>on\<close> command\<close>

definition newline :: string where
  "newline = [CHR 0x0A]"

definition warning_sign :: string where
  "warning_sign = [CHR 0xE2, CHR 0x9A, CHR 0xA0, CHR 0xEF, CHR 0xB8, CHR 0x8F]"

definition cross_mark :: string where
  "cross_mark = [CHR 0xE2, CHR 0x9D, CHR 0x8C]"

definition direct_hit :: string where
  "direct_hit = [CHR 0xF0, CHR 0x9F, CHR 0x8E, CHR 0xAF]"

definition stopwatch :: string where
  "stopwatch = [CHR 0xE2, CHR 0x8F, CHR 0xB1, CHR 0xEF, CHR 0xB8, CHR 0x8F]"

definition bell :: string where
  "bell = [CHR 0xF0, CHR 0x9F, CHR 0x94, CHR 0x94]"

text \<open>\<^verbatim>\<open>NextResponse.json({ response_type: 'ephemeral', text })\<close>.\<close>

datatype response = Ephemeral string

definition already_active_text :: "string \<Rightarrow> string" where
  "already_active_text remaining =
     warning_sign @ '' You already have an active focus session with '' @ remaining
     @ '' remaining.'' @ newline @ newline
     @ ''Use `/focus off` to end it early, or `/focus status` to check details.''"

definition invalid_duration_text :: "string \<Rightarrow> string" where
  "invalid_duration_text durationStr =
     cross_mark @ '' Invalid duration format: '' @ [CHR 0x22] @ durationStr @ [CHR 0x22]
     @ newline @ newline @ ''Use formats like: `2h`, `30m`, `1h30m`''"

definition max_duration_text :: string where
  "max_duration_text =
     warning_sign @ '' Maximum focus duration is 8 hours. Try `/focus on 8h` instead.''"

definition start_failed_text :: string where
  "start_failed_text = cross_mark @ '' Failed to start focus session. Please try again.''"

definition activated_text :: "string \<Rightarrow> string \<Rightarrow> string" where
  "activated_text duration endTimeStr =
     direct_hit @ '' *Focus mode activated!*'' @ newline @ newline
     @ stopwatch @ '' Duration: '' @ duration @ newline
     @ bell @ '' Ends at: '' @ endTimeStr @ newline @ newline
     @ ''_Non-urgent messages will be held and delivered as a summary when your session ends. Urgent messages will still reach you immediately._''
     @ newline @ newline
     @ ''Use `/focus off` to end early or `/focus status` to check time remaining.''"

text \<open>
  \<open>handleFocusOn\<close>. The rendering of the end time by \<^verbatim>\<open>toLocaleTimeString\<close> depends on the
  locale data and time zone of the host and is a parameter. \<^verbatim>\<open>duration || '2h'\<close> takes the
  default for a missing and for an empty argument; \<^verbatim>\<open>!durationMs\<close> holds for no match, for
  zero and for \<^verbatim>\<open>NaN\<close>. An error thrown by \<open>startFocusSession\<close> is thrown on to the caller.
\<close>

definition handleFocusOn ::
  "(int \<Rightarrow> string) \<Rightarrow> string \<Rightarrow> string \<Rightarrow> string option \<Rightarrow> world
     \<Rightarrow> (js_error + response) \<times> world" where
  "handleFocusOn toLocaleTimeString userId userName duration w =
     (let (existingSession, w1) = getActiveFocusSession userId w
      in case existingSession of
           Some existing \<Rightarrow>
             let (now, w2) = read_clock w1;
                 remaining = js_minus (ends_at existing) now
             in (Inr (Ephemeral (already_active_text (formatDuration remaining))), w2)
         | None \<Rightarrow>
             let durationStr = (case duration of
                                  None \<Rightarrow> ''2h''
                                | Some d \<Rightarrow> if d = [] then ''2h'' else d);
                 durationMs = parseDuration durationStr
             in case durationMs of
                  None \<Rightarrow> (Inr (Ephemeral (invalid_duration_text durationStr)), w1)
                | Some ms \<Rightarrow>
                    if js_falsy ms then (Inr (Ephemeral (invalid_duration_text durationStr)), w1)
                    else
                      let maxDuration = 8 * 60 * 60 * 1000
                      in if js_gt ms maxDuration then (Inr (Ephemeral max_duration_text), w1)
                         else
                           let (session, w2) = startFocusSession userId ms w1
                           in case session of
                                Inl e \<Rightarrow> (Inl e, w2)
                              | Inr None \<Rightarrow> (Inr (Ephemeral start_failed_text), w2)
                              | Inr (Some s) \<Rightarrow>
                                  (Inr (Ephemeral (activated_text (formatDuration ms)
                                                     (toLocaleTimeString (ends_at s)))), w2))"

subsection \<open>Later calls on a store\<close>

text \<open>In a world, no row with the given identity is an active session.\<close>

definition inactive :: "nat \<Rightarrow> world \<Rightarrow> bool" where
  "inactive sid w = list_all (\<lambda>r. fs_id r = sid \<longrightarrow> \<not> is_active r) (focus_sessions w)"

text \<open>
  A sequence of calls of the session manager, and the held items its calls of
  \<open>endFocusSession\<close> return one after the other. The items \<open>startFocusSession\<close> reads while
  it ends a prior session are dropped inside it and are not among them.
\<close>

datatype call = EndCall string | StartCall string number

fun surfaced :: "call list \<Rightarrow> world \<Rightarrow> HeldItem list" where
  "surfaced [] w = []"
| "surfaced (EndCall userId # cs) w =
     (let (heldItems, w1) = endFocusSession userId w in heldItems @ surfaced cs w1)"
| "surfaced (StartCall userId durationMs # cs) w =
     surfaced cs (snd (startFocusSession userId durationMs w))"

section \<open>Batch summary\<close>

definition party_popper :: string where
  "party_popper = [CHR 0xF0, CHR 0x9F, CHR 0x8E, CHR 0x89]"

definition mailbox :: string where
  "mailbox = [CHR 0xF0, CHR 0x9F, CHR 0x93, CHR 0xAC]"

definition red_circle :: string where
  "red_circle = [CHR 0xF0, CHR 0x9F, CHR 0x94, CHR 0xB4]"

definition orange_circle :: string where
  "orange_circle = [CHR 0xF0, CHR 0x9F, CHR 0x9F, CHR 0xA0]"

definition yellow_circle :: string where
  "yellow_circle = [CHR 0xF0, CHR 0x9F, CHR 0x9F, CHR 0xA1]"

definition green_circle :: string where
  "green_circle = [CHR 0xF0, CHR 0x9F, CHR 0x9F, CHR 0xA2]"

definition getUrgencyEmoji :: "string \<Rightarrow> string" where
  "getUrgencyEmoji u =
     (if u = ''urgent'' then red_circle
      else if u = ''high'' then orange_circle
      else if u = ''medium'' then yellow_circle
      else green_circle)"

text \<open>
  \<open>sendDM\<close>: it opens the conversation and posts the message; an error of either step and a
  conversation without a channel identity are thrown on to the caller.
\<close>

definition sendDM :: "string \<Rightarrow> string \<Rightarrow> world \<Rightarrow> (js_error + unit) \<times> world" where
  "sendDM userId msg w =
     (case dm_replies w of
        [] \<Rightarrow> (Inr (), w\<lparr>sent_dms := sent_dms w @ [(userId, msg)]\<rparr>)
      | r # rs \<Rightarrow>
          (case r of
             OpenFails \<Rightarrow> (Inl ExternalFailure, w\<lparr>dm_replies := rs\<rparr>)
           | NoChannel \<Rightarrow> (Inl (Error ''Could not open DM channel''), w\<lparr>dm_replies := rs\<rparr>)
           | PostFails \<Rightarrow> (Inl ExternalFailure, w\<lparr>dm_replies := rs\<rparr>)
           | Delivered \<Rightarrow>
               (Inr (), w\<lparr>dm_replies := rs, sent_dms := sent_dms w @ [(userId, msg)]\<rparr>)))"

text \<open>
  The property names every plain object inherits from \<^verbatim>\<open>Object.prototype\<close>. Each of them
  reads as a function, or for \<^verbatim>\<open>__proto__\<close> as the prototype object: a value that is truthy
  and has no \<^verbatim>\<open>push\<close> method.
\<close>

definition object_prototype_names :: "string list" where
  "object_prototype_names =
     [''constructor'', ''__defineGetter__'', ''__defineSetter__'', ''hasOwnProperty'',
      ''__lookupGetter__'', ''__lookupSetter__'', ''isPrototypeOf'', ''propertyIsEnumerable'',
      ''toString'', ''valueOf'', ''__proto__'', ''toLocaleString'']"

text \<open>\<^verbatim>\<open>item.channel_name || item.channel_id\<close>: the identity stands in for an empty name.\<close>

definition item_key :: "HeldItem \<Rightarrow> string" where
  "item_key item = (if channel_name item \<noteq> [] then channel_name item else channel_id item)"

text \<open>
  The grouping loop. \<open>byChannel\<close> is a plain object, modelled by the list of its own
  properties in creation order. \<^verbatim>\<open>byChannel[key]\<close> reads the own property or else the
  inherited one: for a key that is an inherited name and not an own property, the test
  \<^verbatim>\<open>!byChannel[key]\<close> is false, no array is stored, and the call of \<^verbatim>\<open>push\<close> on the inherited
  value throws.
\<close>

fun group_items ::
  "HeldItem list \<Rightarrow> (string \<times> HeldItem list) list \<Rightarrow> js_error + (string \<times> HeldItem list) list"
where
  "group_items [] byChannel = Inr byChannel"
| "group_items (item # rest) byChannel =
     (let key = item_key item
      in case map_of byChannel key of
           Some items \<Rightarrow> group_items rest (AList.update key (items @ [item]) byChannel)
         | None \<Rightarrow>
             if key \<in> set object_prototype_names then Inl TypeError
             else group_items rest (byChannel @ [(key, [item])]))"

text \<open>
  A property name that is an array index: the decimal numeral, without leading zeros, of a
  number below \<open>2 ^ 32 - 1\<close>.
\<close>

definition array_index :: "string \<Rightarrow> nat option" where
  "array_index k =
     (if digits k \<and> show_pos (numeral_value k) = k \<and> numeral_value k < 4294967295
        then Some (nat (numeral_value k)) else None)"

text \<open>
  \<^verbatim>\<open>Object.entries\<close>: the own properties whose names are array indices in ascending numeric
  order, then the others in creation order.
\<close>

definition object_entries :: "(string \<times> 'a) list \<Rightarrow> (string \<times> 'a) list" where
  "object_entries ps =
     sort_key (\<lambda>p. case array_index (fst p) of Some i \<Rightarrow> i | None \<Rightarrow> 0)
       (filter (\<lambda>p. array_index (fst p) \<noteq> None) ps)
     @ filter (\<lambda>p. array_index (fst p) = None) ps"

definition no_messages_text :: string where
  "no_messages_text =
     party_popper @ '' *Focus session complete!*'' @ newline @ newline
     @ ''No messages were held during your session.''"

definition header_lines :: "nat \<Rightarrow> string list" where
  "header_lines n =
     [party_popper @ '' *Focus session complete!*'',
      [],
      mailbox @ '' *'' @ show_nat n @ '' message'' @ (if n = 1 then [] else ''s'') @ '' held:*'',
      []]"

definition item_line :: "HeldItem \<Rightarrow> string" where
  "item_line item =
     (let preview = (if length (message_text item) > 80
                       then take 80 (message_text item) @ ''...''
                     else message_text item)
      in ''  '' @ getUrgencyEmoji (urgency item) @ '' *'' @ sender_name item @ ''*: ''
         @ preview)"

definition more_line :: "nat \<Rightarrow> string" where
  "more_line n = ''  _...and '' @ show_nat n @ '' more_''"

definition channel_lines :: "string \<times> HeldItem list \<Rightarrow> string list" where
  "channel_lines entry =
     (let channel = fst entry; items = snd entry
      in [''*#'' @ channel @ ''* ('' @ show_nat (length items) @ ''):'']
         @ map item_line (take 5 items)
         @ (if length items > 5 then [more_line (length items - 5)] else [])
         @ [[]])"

definition sendBatchSummary ::
  "string \<Rightarrow> HeldItem list \<Rightarrow> world \<Rightarrow> (js_error + unit) \<times> world" where
  "sendBatchSummary userId heldItems w =
     (if length heldItems = 0 then sendDM userId no_messages_text w
      else
        case group_items heldItems [] of
          Inl e \<Rightarrow> (Inl e, w)
        | Inr byChannel \<Rightarrow>
            let lines = header_lines (length heldItems)
                        @ concat (map channel_lines (object_entries byChannel))
            in sendDM userId (join lines newline) w)"

section \<open>Example worlds\<close>

definition quiet_world :: world where
  "quiet_world =
     \<lparr>focus_sessions = [], held_items = [], next_id = 0, clock = 1000, elapsed = [],
      db_faults = [], dm_replies = [], sent_dms = []\<rparr>"

definition busy_world :: world where
  "busy_world =
     \<lparr>focus_sessions =
        [\<lparr>fs_id = 0, user_id = ''U1'', started_at = 0, ends_at = 3601000, is_active = True,
          created_at = 0\<rparr>],
      held_items = [], next_id = 1, clock = 1000, elapsed = [],
      db_faults = [], dm_replies = [], sent_dms = []\<rparr>"

definition lunch_item :: HeldItem where
  "lunch_item =
     \<lparr>item_id = 1, session_id = 0, channel_id = ''C1'', channel_name = ''general'',
      sender_id = ''U2'', sender_name = ''bob'', message_text = ''lunch?'',
      message_ts = ''1.0'', urgency = ''low'', classification_reason = ''social'',
      received_at = 500\<rparr>"

definition held_world :: world where
  "held_world = busy_world\<lparr>held_items := [lunch_item], next_id := 2\<rparr>"

definition faulty_world :: world where
  "faulty_world = held_world\<lparr>db_faults := [False, False, True]\<rparr>"

definition constructor_item :: HeldItem where
  "constructor_item = lunch_item\<lparr>channel_name := ''constructor''\<rparr>"

section \<open>Properties of the duration parser and formatter\<close>

lemma not_digit_h: "\<not> is_digit CHR ''h''" "\<not> is_digit CHR ''m''"
  by (simp_all add: is_digit_def)

lemma match_group_sound:
  assumes "match_group u s = (g, r)"
  shows "s = part g u @ r \<and> valid_part g"
proof (cases "dropWhile is_digit s")
  case Nil
  with assms show ?thesis by (simp add: match_group_def)
next
  case (Cons c r')
  have split: "s = takeWhile is_digit s @ c # r'"
    using Cons takeWhile_dropWhile_id [of is_digit s] by simp
  show ?thesis
  proof (cases "takeWhile is_digit s \<noteq> [] \<and> c = u")
    case True
    with assms Cons have g: "g = Some (takeWhile is_digit s)" and r: "r = r'"
      by (simp_all add: match_group_def)
    have "list_all is_digit (takeWhile is_digit s)"
      by (simp add: list_all_iff) (meson set_takeWhileD)
    with True g r split show ?thesis by (simp add: digits_def)
  next
    case False
    with assms Cons show ?thesis by (auto simp add: match_group_def)
  qed
qed

lemma match_group_hit:
  assumes "digits ds" and "\<not> is_digit u"
  shows "match_group u (ds @ u # r) = (Some ds, r)"
proof -
  from assms have all: "\<forall>c\<in>set ds. is_digit c" and ne: "ds \<noteq> []"
    by (simp_all add: digits_def list_all_iff)
  have "takeWhile is_digit (ds @ u # r) = ds"
    using all assms(2) by simp
  moreover have "dropWhile is_digit (ds @ u # r) = u # r"
    using all assms(2) by simp
  ultimately show ?thesis using ne by (simp add: match_group_def)
qed

lemma match_group_other:
  assumes "digits ds" and "\<not> is_digit v" and "v \<noteq> u"
  shows "match_group u (ds @ v # r) = (None, ds @ v # r)"
proof -
  from assms have all: "\<forall>c\<in>set ds. is_digit c"
    by (simp add: digits_def list_all_iff)
  have "dropWhile is_digit (ds @ v # r) = v # r"
    using all assms(2) by simp
  then show ?thesis using assms(3) by (simp add: match_group_def)
qed

lemma match_group_Nil: "match_group u [] = (None, [])"
  by (simp add: match_group_def)

lemma regex_match_complete:
  assumes "valid_part g1" and "valid_part g2"
  shows "regex_match (part g1 CHR ''h'' @ part g2 CHR ''m'') = Some (g1, g2)"
proof -
  have second: "match_group CHR ''m'' (part g2 CHR ''m'') = (g2, [])"
    using assms(2) by (cases g2) (simp_all add: match_group_Nil match_group_hit not_digit_h)
  show ?thesis
  proof (cases g1)
    case None
    have "match_group CHR ''h'' (part g2 CHR ''m'') = (None, part g2 CHR ''m'')"
      using assms(2) by (cases g2) (simp_all add: match_group_Nil match_group_other not_digit_h)
    with None second show ?thesis by (simp add: regex_match_def)
  next
    case (Some hs)
    with assms(1) have "match_group CHR ''h'' (hs @ CHR ''h'' # part g2 CHR ''m'') = (Some hs, part g2 CHR ''m'')"
      by (simp add: match_group_hit not_digit_h)
    with Some second show ?thesis by (simp add: regex_match_def)
  qed
qed

lemma regex_match_sound:
  assumes "regex_match s = Some (g1, g2)"
  shows "valid_part g1 \<and> valid_part g2 \<and> s = part g1 CHR ''h'' @ part g2 CHR ''m''"
proof -
  obtain a r1 where m1: "match_group CHR ''h'' s = (a, r1)" by (cases "match_group CHR ''h'' s")
  obtain b r2 where m2: "match_group CHR ''m'' r1 = (b, r2)" by (cases "match_group CHR ''m'' r1")
  from assms m1 m2 have "r2 = []" "a = g1" "b = g2"
    by (simp_all add: regex_match_def split: if_splits)
  with match_group_sound [OF m1] match_group_sound [OF m2] show ?thesis by simp
qed

lemma regex_match_iff:
  "regex_match s = Some (g1, g2) \<longleftrightarrow>
     valid_part g1 \<and> valid_part g2 \<and> s = part g1 CHR ''h'' @ part g2 CHR ''m''"
  using regex_match_sound regex_match_complete by blast

lemma numeral_value_snoc: "numeral_value (ds @ [c]) = numeral_value ds * 10 + digit_val c"
  by (simp add: numeral_value_def)

lemma decimal_snoc: "decimal (ds @ [c]) = decimal ds * 10 + digit_val c"
proof -
  have "(\<Sum>i<length ds. digit_val ((ds @ [c]) ! i) * 10 ^ (length ds - i))
      = (\<Sum>i<length ds. (digit_val (ds ! i) * 10 ^ (length ds - Suc i)) * 10)"
  proof (rule sum.cong)
    fix i assume "i \<in> {..<length ds}"
    then have i: "i < length ds" by simp
    then have "length ds - i = Suc (length ds - Suc i)" by simp
    with i show "digit_val ((ds @ [c]) ! i) * 10 ^ (length ds - i)
        = (digit_val (ds ! i) * 10 ^ (length ds - Suc i)) * 10"
      by (simp add: nth_append)
  qed simp
  then show ?thesis
    by (simp add: decimal_def sum_distrib_right)
qed

lemma numeral_value_decimal: "numeral_value ds = decimal ds"
proof (induction ds rule: rev_induct)
  case Nil
  show ?case by (simp add: numeral_value_def decimal_def)
next
  case (snoc c ds)
  then show ?case by (simp add: numeral_value_snoc decimal_snoc)
qed

lemma numeral_value_zero: "numeral_value ''0'' = 0"
  by (simp add: numeral_value_def digit_val_def)

lemma digits_numeral_value_nonneg: "list_all is_digit ds \<Longrightarrow> 0 \<le> numeral_value ds"
proof (induction ds rule: rev_induct)
  case Nil
  show ?case by (simp add: numeral_value_def)
next
  case (snoc c ds)
  then have "0 \<le> numeral_value ds" and "0 \<le> digit_val c"
    by (simp_all add: is_digit_def digit_val_def)
  then show ?case by (simp add: numeral_value_snoc)
qed

lemma amount_nonneg: "valid_part g \<Longrightarrow> 0 \<le> amount g"
  by (cases g)
     (simp_all add: digits_def digits_numeral_value_nonneg numeral_value_decimal [symmetric])

lemma fl_exact: "0 \<le> i \<Longrightarrow> i < 2 ^ 53 \<Longrightarrow> fl i = Num i"
  by (simp add: fl_def fl_pos_def)

lemma parseInt_amount:
  "parseInt (case g of Some ds \<Rightarrow> ds | None \<Rightarrow> ''0'') = fl (amount g)"
  by (cases g)
     (simp add: parseInt_def numeral_value_zero, simp add: parseInt_def numeral_value_decimal)

lemma parseDuration_match:
  assumes "valid_part g1" and "valid_part g2" and "g1 \<noteq> None \<or> g2 \<noteq> None"
    and "toLowerCase s = part g1 CHR ''h'' @ part g2 CHR ''m''"
  shows "parseDuration s =
     Some (js_times (js_times (js_plus (js_times (fl (amount g1)) 60) (fl (amount g2))) 60) 1000)"
proof -
  have rm: "regex_match (toLowerCase s) = Some (g1, g2)"
    using assms(1,2,4) by (simp add: regex_match_complete)
  show ?thesis
    unfolding parseDuration_def rm using assms(3) by (simp add: Let_def parseInt_amount)
qed

lemma parseDuration_value:
  assumes "valid_part g1" and "valid_part g2" and "g1 \<noteq> None \<or> g2 \<noteq> None"
    and "toLowerCase s = part g1 CHR ''h'' @ part g2 CHR ''m''"
    and "(amount g1 * 60 + amount g2) * 60000 < 2 ^ 53"
  shows "parseDuration s = Some (Num ((amount g1 * 60 + amount g2) * 60000))"
proof -
  let ?h = "amount g1" and ?m = "amount g2"
  have h0: "0 \<le> ?h" and m0: "0 \<le> ?m"
    using assms(1,2) by (simp_all add: amount_nonneg)
  have b5: "(?h * 60 + ?m) * 60 * 1000 < 2 ^ 53" using assms(5) by simp
  have b4: "(?h * 60 + ?m) * 60 < 2 ^ 53" using b5 h0 m0 by simp
  have b3: "?h * 60 + ?m < 2 ^ 53" using b4 h0 m0 by simp
  have b2: "?h * 60 < 2 ^ 53" using b3 m0 by simp
  have b1: "?h < 2 ^ 53" using b2 h0 by simp
  have b0: "?m < 2 ^ 53" using b3 h0 by simp
  have s1: "fl ?h = Num ?h" using h0 b1 by (rule fl_exact)
  have s2: "fl ?m = Num ?m" using m0 b0 by (rule fl_exact)
  have s3: "fl (?h * 60) = Num (?h * 60)" using h0 b2 by (intro fl_exact) simp_all
  have s4: "fl (?h * 60 + ?m) = Num (?h * 60 + ?m)" using h0 m0 b3 by (intro fl_exact) simp_all
  have s5: "fl ((?h * 60 + ?m) * 60) = Num ((?h * 60 + ?m) * 60)"
    using h0 m0 b4 by (intro fl_exact) simp_all
  have s6: "fl ((?h * 60 + ?m) * 60 * 1000) = Num ((?h * 60 + ?m) * 60 * 1000)"
    using h0 m0 b5 by (intro fl_exact) simp_all
  have "parseDuration s = Some (Num ((?h * 60 + ?m) * 60 * 1000))"
    unfolding parseDuration_match [OF assms(1-4)]
    by (simp only: s1 s2 js_times.simps s3 js_plus.simps s4 s5 s6)
  then show ?thesis by simp
qed

lemma parseDuration_None_iff:
  "parseDuration s = None \<longleftrightarrow>
     \<not> (\<exists>g1 g2. (g1 \<noteq> None \<or> g2 \<noteq> None) \<and> valid_part g1 \<and> valid_part g2 \<and>
          toLowerCase s = part g1 CHR ''h'' @ part g2 CHR ''m'')"
proof
  assume none: "parseDuration s = None"
  show "\<not> (\<exists>g1 g2. (g1 \<noteq> None \<or> g2 \<noteq> None) \<and> valid_part g1 \<and> valid_part g2 \<and>
          toLowerCase s = part g1 CHR ''h'' @ part g2 CHR ''m'')"
  proof
    assume "\<exists>g1 g2. (g1 \<noteq> None \<or> g2 \<noteq> None) \<and> valid_part g1 \<and> valid_part g2 \<and>
          toLowerCase s = part g1 CHR ''h'' @ part g2 CHR ''m''"
    then obtain g1 g2 where "g1 \<noteq> None \<or> g2 \<noteq> None" "valid_part g1" "valid_part g2"
      "toLowerCase s = part g1 CHR ''h'' @ part g2 CHR ''m''" by blast
    then have "parseDuration s \<noteq> None"
      by (simp add: parseDuration_match)
    with none show False by simp
  qed
next
  assume no: "\<not> (\<exists>g1 g2. (g1 \<noteq> None \<or> g2 \<noteq> None) \<and> valid_part g1 \<and> valid_part g2 \<and>
          toLowerCase s = part g1 CHR ''h'' @ part g2 CHR ''m'')"
  show "parseDuration s = None"
  proof (cases "regex_match (toLowerCase s)")
    case None
    then show ?thesis by (simp add: parseDuration_def)
  next
    case (Some p)
    obtain g1 g2 where p: "p = (g1, g2)" by (cases p)
    with Some regex_match_sound have "valid_part g1 \<and> valid_part g2 \<and>
        toLowerCase s = part g1 CHR ''h'' @ part g2 CHR ''m''" by simp
    with no have "g1 = None \<and> g2 = None" by blast
    with Some p show ?thesis by (simp add: parseDuration_def)
  qed
qed

lemma is_digit_digit_char: "d < 10 \<Longrightarrow> is_digit (digit_char d)"
  by (simp add: is_digit_def digit_char_def)

lemma digit_val_digit_char: "d < 10 \<Longrightarrow> digit_val (digit_char d) = int d"
  by (simp add: digit_val_def digit_char_def)

lemma show_nat_rec:
  "show_nat n = (if n < 10 then [digit_char n] else show_nat (n div 10) @ [digit_char (n mod 10)])"
proof (cases "n < 10")
  case True
  then show ?thesis by (simp add: show_nat_def show_pos.simps [of "int n"])
next
  case False
  have "int n div 10 = int (n div 10)" by (simp add: zdiv_int)
  moreover have "nat (int n mod 10) = n mod 10" by (simp add: nat_mod_distrib)
  ultimately show ?thesis using False
    by (simp add: show_nat_def show_pos.simps [of "int n"])
qed

lemma show_int_nat: "show_int (int n) = show_nat n"
  by (simp add: show_int_def show_nat_def)

lemma show_nat_digits: "digits (show_nat n)"
proof (induction n rule: less_induct)
  case (less n)
  show ?case
  proof (cases "n < 10")
    case True
    then show ?thesis
      by (subst show_nat_rec) (simp add: digits_def is_digit_digit_char)
  next
    case False
    then have "n div 10 < n" by simp
    then have "digits (show_nat (n div 10))" by (rule less)
    moreover have "is_digit (digit_char (n mod 10))" by (simp add: is_digit_digit_char)
    ultimately show ?thesis using False
      by (subst show_nat_rec) (simp add: digits_def)
  qed
qed

lemma numeral_value_show_nat: "numeral_value (show_nat n) = int n"
proof (induction n rule: less_induct)
  case (less n)
  show ?case
  proof (cases "n < 10")
    case True
    then show ?thesis
      by (subst show_nat_rec) (simp add: numeral_value_def digit_val_digit_char)
  next
    case False
    then have "n div 10 < n" by simp
    then have "numeral_value (show_nat (n div 10)) = int (n div 10)" by (rule less)
    then have "numeral_value (show_nat (n div 10) @ [digit_char (n mod 10)])
        = int (n div 10) * 10 + int (n mod 10)"
      by (simp add: numeral_value_snoc digit_val_digit_char)
    also have "\<dots> = int n" by presburger
    finally show ?thesis using False by (subst show_nat_rec) simp
  qed
qed

lemma digit_not_upper: "is_digit c \<Longrightarrow> lower_char c = c"
  by (simp add: is_digit_def lower_char_def is_upper_def)

lemma digit_not_space: "is_digit c \<Longrightarrow> c \<noteq> CHR '' ''"
  by (auto simp add: is_digit_def)

lemma toLowerCase_digits: "digits ds \<Longrightarrow> toLowerCase ds = ds"
  by (simp add: digits_def toLowerCase_def list_all_iff map_idI digit_not_upper)

lemma drop_spaces_digits: "digits ds \<Longrightarrow> drop_spaces ds = ds"
  by (simp add: digits_def drop_spaces_def list_all_iff digit_not_space)

lemma toLowerCase_append: "toLowerCase (a @ b) = toLowerCase a @ toLowerCase b"
  by (simp add: toLowerCase_def)

lemma drop_spaces_append: "drop_spaces (a @ b) = drop_spaces a @ drop_spaces b"
  by (simp add: drop_spaces_def)

lemma toLowerCase_units:
  "toLowerCase (CHR ''h'' # s) = CHR ''h'' # toLowerCase s"
  "toLowerCase (CHR ''m'' # s) = CHR ''m'' # toLowerCase s"
  "toLowerCase [] = []"
  by (simp_all add: toLowerCase_def lower_char_def is_upper_def)

lemma drop_spaces_units:
  "drop_spaces (CHR ''h'' # s) = CHR ''h'' # drop_spaces s"
  "drop_spaces (CHR ''m'' # s) = CHR ''m'' # drop_spaces s"
  "drop_spaces (CHR '' '' # s) = drop_spaces s"
  "drop_spaces [] = []"
  by (simp_all add: drop_spaces_def)

lemma formatDuration_minutes:
  assumes "int t * 60000 < 2 ^ 53"
  shows "formatDuration (Num (int t * 60000)) = normalized t"
proof -
  have t53: "int t < 2 ^ 53" using assms by simp
  have "int (t div 60) \<le> int t" by simp
  then have q53: "int (t div 60) < 2 ^ 53" using t53 by linarith
  have r53: "int (t mod 60) < 2 ^ 53" by (rule less_trans [of _ 60]) simp_all
  have mins: "math_floor_div (Num (int t * 60000)) 60000 = Num (int t)"
    using assms by simp
  have hours: "math_floor_div (Num (int t)) 60 = Num (int (t div 60))"
    using t53 by (simp add: zdiv_int)
  have rems: "js_rem (Num (int t)) 60 = Num (int (t mod 60))"
    by (simp add: zmod_int)
  have sh: "number_to_string (Num (int (t div 60))) = show_nat (t div 60)"
    using q53 by (simp add: show_int_nat)
  have sm: "number_to_string (Num (int (t mod 60))) = show_nat (t mod 60)"
    using r53 by (simp add: show_int_nat)
  have st: "number_to_string (Num (int t)) = show_nat t"
    using t53 by (simp add: show_int_nat)
  have gh: "js_gt (Num (int (t div 60))) 0 = (t div 60 \<noteq> 0)" by simp
  have gm: "js_gt (Num (int (t mod 60))) 0 = (t mod 60 \<noteq> 0)" by simp
  have f: "formatDuration (Num (int t * 60000)) =
      (if t div 60 \<noteq> 0 \<and> t mod 60 \<noteq> 0
         then show_nat (t div 60) @ ''h '' @ show_nat (t mod 60) @ ''m''
       else if t div 60 \<noteq> 0 then show_nat (t div 60) @ ''h''
       else show_nat t @ ''m'')"
    unfolding formatDuration_def Let_def mins hours rems gh gm sh sm st by (rule refl)
  have small: "t div 60 = 0 \<Longrightarrow> t mod 60 = t" by simp
  show ?thesis
    unfolding f normalized_def Let_def using small by auto
qed

lemma parse_normalized:
  assumes "int t * 60000 < 2 ^ 53"
  shows "parseDuration (drop_spaces (normalized t)) = Some (Num (int t * 60000))"
proof -
  let ?h = "t div 60" and ?m = "t mod 60"
  have dh: "digits (show_nat ?h)" and dm: "digits (show_nat ?m)" and dt: "digits (show_nat t)"
    by (rule show_nat_digits)+
  have vh: "decimal (show_nat ?h) = int ?h" and vm: "decimal (show_nat ?m) = int ?m"
    and vt: "decimal (show_nat t) = int t"
    by (simp_all add: numeral_value_decimal [symmetric] numeral_value_show_nat)
  have total: "int ?h * 60 + int ?m = int t"
    by (metis of_nat_add of_nat_mult of_nat_numeral div_mult_mod_eq)
  have bound: "(int ?h * 60 + int ?m) * 60000 < 2 ^ 53" using assms total by simp
  consider (both) "?h \<noteq> 0" "?m \<noteq> 0" | (hours) "?h \<noteq> 0" "?m = 0" | (mins) "?h = 0" by blast
  then show ?thesis
  proof cases
    case both
    have "toLowerCase (drop_spaces (normalized t))
        = part (Some (show_nat ?h)) CHR ''h'' @ part (Some (show_nat ?m)) CHR ''m''"
      using both dh dm
      by (simp add: normalized_def drop_spaces_append drop_spaces_digits drop_spaces_units
          toLowerCase_append toLowerCase_digits toLowerCase_units)
    then have "parseDuration (drop_spaces (normalized t))
        = Some (Num ((amount (Some (show_nat ?h)) * 60 + amount (Some (show_nat ?m))) * 60000))"
      using dh dm bound by (intro parseDuration_value) (simp_all add: vh vm)
    then show ?thesis using vh vm total by simp
  next
    case hours
    have "toLowerCase (drop_spaces (normalized t))
        = part (Some (show_nat ?h)) CHR ''h'' @ part None CHR ''m''"
      using hours dh
      by (simp add: normalized_def drop_spaces_append drop_spaces_digits drop_spaces_units
          toLowerCase_append toLowerCase_digits toLowerCase_units)
    then have "parseDuration (drop_spaces (normalized t))
        = Some (Num ((amount (Some (show_nat ?h)) * 60 + amount None) * 60000))"
      using dh bound hours by (intro parseDuration_value) (simp_all add: vh)
    then show ?thesis using vh hours total by simp
  next
    case mins
    have "toLowerCase (drop_spaces (normalized t))
        = part None CHR ''h'' @ part (Some (show_nat ?m)) CHR ''m''"
      using mins dm
      by (simp add: normalized_def drop_spaces_append drop_spaces_digits drop_spaces_units
          toLowerCase_append toLowerCase_digits toLowerCase_units)
    then have "parseDuration (drop_spaces (normalized t))
        = Some (Num ((amount None * 60 + amount (Some (show_nat ?m))) * 60000))"
      using dm bound mins by (intro parseDuration_value) (simp_all add: vm vt)
    then show ?thesis using vm mins total by simp
  qed
qed

lemma bit_length_bounds:
  "0 < n \<Longrightarrow> 2 ^ (bit_length n - 1) \<le> n \<and> n < 2 ^ bit_length n"
proof (induction n rule: bit_length.induct)
  case (1 n)
  show ?case
  proof (cases "n div 2 \<le> 0")
    case True
    with "1.prems" have "n = 1" by linarith
    then show ?thesis by (simp add: bit_length.simps [of 1] bit_length.simps [of 0])
  next
    case False
    then have pos: "0 < n div 2" by simp
    with "1.IH" "1.prems" have ih: "2 ^ (bit_length (n div 2) - 1) \<le> n div 2"
      "n div 2 < 2 ^ bit_length (n div 2)" by simp_all
    have b: "bit_length n = Suc (bit_length (n div 2))"
      using "1.prems" by (simp add: bit_length.simps [of n])
    have p: "0 < bit_length (n div 2)"
      using pos by (simp add: bit_length.simps [of "n div 2"])
    then have "(2::int) ^ (bit_length n - 1) = 2 * 2 ^ (bit_length (n div 2) - 1)"
      unfolding b by (cases "bit_length (n div 2)") simp_all
    moreover have "2 * (n div 2) \<le> n" by simp
    moreover have "n < 2 * (n div 2) + 2" by linarith
    ultimately show ?thesis using ih unfolding b by simp
  qed
qed

lemma round_half_even_ge: "0 < y \<Longrightarrow> x div y \<le> round_half_even x y"
  by (simp add: round_half_even_def Let_def)

lemma fl_pos_large:
  assumes "2 ^ 53 \<le> n" and "fl_pos n = Some m"
  shows "2 ^ 53 \<le> m"
proof -
  define e where "e = bit_length n - 53"
  have pos: "0 < n" using assms(1) by (rule less_le_trans [rotated]) simp
  from bit_length_bounds [OF pos] have lo: "2 ^ (bit_length n - 1) \<le> n"
    and hi: "n < 2 ^ bit_length n" by simp_all
  have "(2::int) ^ 53 < 2 ^ bit_length n" using assms(1) hi by linarith
  then have bl: "53 < bit_length n" by (rule power_less_imp_less_exp [rotated]) simp
  then have e1: "1 \<le> e" and split: "bit_length n - 1 = 52 + e" by (simp_all add: e_def)
  have "(2::int) ^ 52 * 2 ^ e \<le> n" using lo unfolding split by (simp add: power_add)
  then have "(2::int) ^ 52 \<le> n div 2 ^ e"
    by (simp add: pos_le_divide_eq zdiv_mono1 flip: div_mult_self_is_m)
       (metis div_mult_self_is_m nonzero_mult_div_cancel_right zdiv_mono1 zero_less_numeral
          zero_less_power power_not_zero zero_neq_numeral)
  also have "\<dots> \<le> round_half_even n (2 ^ e)" by (rule round_half_even_ge) simp
  finally have r: "2 ^ 52 \<le> round_half_even n (2 ^ e)" .
  from assms have m: "m = round_half_even n (2 ^ e) * 2 ^ e"
    by (simp add: fl_pos_def Let_def e_def split: if_splits)
  have "(2::int) ^ 53 = 2 ^ 52 * 2 ^ 1" by simp
  also have "\<dots> \<le> 2 ^ 52 * 2 ^ e" using e1 by (intro mult_left_mono power_increasing) simp_all
  also have "\<dots> \<le> round_half_even n (2 ^ e) * 2 ^ e" using r by (intro mult_right_mono) simp_all
  finally show ?thesis unfolding m .
qed

lemma new_Date_fl:
  assumes "new_Date (fl i) = Some t"
  shows "t = i"
proof (cases "\<bar>i\<bar> < 2 ^ 53")
  case True
  have "fl i = Num i"
  proof (cases "0 \<le> i")
    case nonneg: True
    with True show ?thesis by (intro fl_exact) simp_all
  next
    case False
    with True have "- i < 2 ^ 53" by simp
    then have "fl_pos (- i) = Some (- i)" unfolding fl_pos_def by (rule if_P)
    with False show ?thesis by (simp add: fl_def)
  qed
  with assms show ?thesis by (simp split: if_splits)
next
  case False
  show ?thesis
  proof (cases "0 \<le> i")
    case True
    with False have big: "2 ^ 53 \<le> i" by simp
    show ?thesis
    proof (cases "fl_pos i")
      case None
      with True assms show ?thesis by (simp add: fl_def)
    next
      case (Some m)
      from fl_pos_large [OF big Some] have "2 ^ 53 \<le> m" .
      with True Some assms show ?thesis by (simp add: fl_def split: if_splits)
    qed
  next
    case neg: False
    with False have big: "2 ^ 53 \<le> - i" by simp
    show ?thesis
    proof (cases "fl_pos (- i)")
      case None
      with neg assms show ?thesis by (simp add: fl_def)
    next
      case (Some m)
      from fl_pos_large [OF big Some] have "2 ^ 53 \<le> m" .
      with neg Some assms show ?thesis by (simp add: fl_def split: if_splits)
    qed
  qed
qed

lemma long_minutes_shape:
  "valid_part None" "valid_part (Some ''9007199254740993'')"
  "toLowerCase ''9007199254740993m'' =
     part None CHR ''h'' @ part (Some ''9007199254740993'') CHR ''m''"
proof -
  show "valid_part None" by simp
  have "digits ''9007199254740993''" by code_simp
  then show "valid_part (Some ''9007199254740993'')" by simp
  show "toLowerCase ''9007199254740993m'' =
     part None CHR ''h'' @ part (Some ''9007199254740993'') CHR ''m''"
    by code_simp
qed

lemma long_minutes_amount: "amount (Some ''9007199254740993'') = 9007199254740993"
proof -
  have "numeral_value ''9007199254740993'' = 9007199254740993" by code_simp
  then show ?thesis by (simp add: numeral_value_decimal [symmetric])
qed

lemma long_minutes_parse:
  "parseDuration ''9007199254740993m'' = Some (Num 540431955284459520000)"
  by code_simp

text \<open>
  Claim C5, as amended. \<open>parseDuration\<close> returns no match exactly when its argument, letter
  case aside, is not an optional integer-with-\<open>h\<close> part followed by an optional
  integer-with-\<open>m\<close> part with at least one of the two present: the empty string, a string
  with neither part, and a string with any further character are all rejected. For every
  other argument it returns a number, and that number is \<open>(hours * 60 + minutes) * 60000\<close>
  whenever this product is below \<open>2 ^ 53\<close>, an absent part counting as zero.
\<close>

theorem parseDuration_no_match_iff:
  "(parseDuration s = None \<longleftrightarrow>
      \<not> (\<exists>g1 g2. (g1 \<noteq> None \<or> g2 \<noteq> None) \<and> valid_part g1 \<and> valid_part g2 \<and>
            toLowerCase s = part g1 CHR ''h'' @ part g2 CHR ''m'')) \<and>
   (valid_part h \<and> valid_part m \<and> (h \<noteq> None \<or> m \<noteq> None) \<and>
    toLowerCase s = part h CHR ''h'' @ part m CHR ''m'' \<and>
    (amount h * 60 + amount m) * 60000 < 2 ^ 53 \<longrightarrow>
      parseDuration s = Some (Num ((amount h * 60 + amount m) * 60000))) \<and>
   parseDuration [] = None"
proof -
  have empty: "parseDuration [] = None"
    by (simp add: parseDuration_def toLowerCase_def regex_match_def match_group_Nil)
  from parseDuration_None_iff [of s] parseDuration_value [of h m s] empty
  show ?thesis by blast
qed

theorem parseDuration_no_match_iff_witness:
  "valid_part (Some ''1'') \<and> valid_part (Some ''30'') \<and>
   toLowerCase ''1H30m'' = part (Some ''1'') CHR ''h'' @ part (Some ''30'') CHR ''m'' \<and>
   (amount (Some ''1'') * 60 + amount (Some ''30'')) * 60000 < 2 ^ 53 \<and>
   parseDuration ''1H30m'' = Some (Num 5400000)"
proof -
  have v: "valid_part (Some ''1'')" "valid_part (Some ''30'')"
    by (simp_all add: digits_def is_digit_def)
  have l: "toLowerCase ''1H30m'' = part (Some ''1'') CHR ''h'' @ part (Some ''30'') CHR ''m''"
    by code_simp
  have a: "amount (Some ''1'') = 1" "amount (Some ''30'') = 30"
    by (simp_all add: numeral_value_decimal [symmetric] numeral_value_def digit_val_def)
  from parseDuration_no_match_iff [of "''1H30m''" "Some ''1''" "Some ''30''"] v l a
  show ?thesis by simp
qed

text \<open>
  The value is not the exact product for every argument: for \<open>9007199254740993m\<close>, whose
  minutes are \<open>2 ^ 53 + 1\<close>, \<open>parseInt\<close> yields the double \<open>2 ^ 53\<close> and \<open>parseDuration\<close> returns
  540431955284459520000, while \<open>(hours * 60 + minutes) * 60000\<close> is 540431955284459580000.
\<close>

theorem parseDuration_rounding_counterexample:
  "valid_part None \<and> valid_part (Some ''9007199254740993'') \<and>
   toLowerCase ''9007199254740993m'' =
     part None CHR ''h'' @ part (Some ''9007199254740993'') CHR ''m'' \<and>
   (amount None * 60 + amount (Some ''9007199254740993'')) * 60000 = 540431955284459580000 \<and>
   parseDuration ''9007199254740993m'' = Some (Num 540431955284459520000) \<and>
   parseDuration ''9007199254740993m'' \<noteq>
     Some (Num ((amount None * 60 + amount (Some ''9007199254740993'')) * 60000))"
  using long_minutes_shape long_minutes_amount long_minutes_parse by simp

text \<open>
  Claim C6, as amended. For every well-formed duration string (an optional hour part, an
  optional minute part, at least one present) whose total is below \<open>2 ^ 53\<close> milliseconds,
  \<open>parseDuration\<close> followed by \<open>formatDuration\<close> gives the normalized rendering of the same
  total of whole minutes, and that rendering, its blank removed, parses back to the same
  number of milliseconds; \<open>1h30m\<close> gives \<open>1h 30m\<close>. The malformed strings \<open>""\<close>, \<open>2x\<close>, \<open>h\<close>
  and \<open>30\<close> give no match.
\<close>

theorem roundtrip:
  "(valid_part g1 \<and> valid_part g2 \<and> (g1 \<noteq> None \<or> g2 \<noteq> None) \<and>
      toLowerCase s = part g1 CHR ''h'' @ part g2 CHR ''m'' \<and>
      (amount g1 * 60 + amount g2) * 60000 < 2 ^ 53 \<longrightarrow>
        (\<exists>t. parseDuration s = Some t \<and>
             formatDuration t = normalized (nat (amount g1 * 60 + amount g2)) \<and>
             parseDuration (drop_spaces (formatDuration t)) = Some t)) \<and>
   formatDuration (the (parseDuration ''1h30m'')) = ''1h 30m'' \<and>
   parseDuration '''' = None \<and> parseDuration ''2x'' = None \<and>
   parseDuration ''h'' = None \<and> parseDuration ''30'' = None"
proof -
  have general: "\<exists>t. parseDuration s = Some t \<and>
             formatDuration t = normalized (nat (amount g1 * 60 + amount g2)) \<and>
             parseDuration (drop_spaces (formatDuration t)) = Some t"
    if v: "valid_part g1" "valid_part g2" "g1 \<noteq> None \<or> g2 \<noteq> None"
      "toLowerCase s = part g1 CHR ''h'' @ part g2 CHR ''m''"
      "(amount g1 * 60 + amount g2) * 60000 < 2 ^ 53"
  proof -
    define k where "k = nat (amount g1 * 60 + amount g2)"
    have "0 \<le> amount g1 * 60 + amount g2"
      using amount_nonneg [OF v(1)] amount_nonneg [OF v(2)] by simp
    then have k: "int k = amount g1 * 60 + amount g2" by (simp add: k_def)
    have b: "int k * 60000 < 2 ^ 53" using v(5) k by simp
    have p: "parseDuration s = Some (Num (int k * 60000))"
      using parseDuration_value [OF v] k by simp
    show ?thesis
      using p formatDuration_minutes [OF b] parse_normalized [OF b]
      by (simp add: k_def [symmetric])
  qed
  have ex: "formatDuration (the (parseDuration ''1h30m'')) = ''1h 30m''" by code_simp
  have m1: "parseDuration '''' = None" by code_simp
  have m2: "parseDuration ''2x'' = None" by code_simp
  have m3: "parseDuration ''h'' = None" by code_simp
  have m4: "parseDuration ''30'' = None" by code_simp
  from general ex m1 m2 m3 m4 show ?thesis by blast
qed

theorem roundtrip_witness:
  "valid_part None \<and> valid_part (Some ''90'') \<and>
   toLowerCase ''90M'' = part None CHR ''h'' @ part (Some ''90'') CHR ''m'' \<and>
   (amount None * 60 + amount (Some ''90'')) * 60000 < 2 ^ 53 \<and>
   parseDuration ''90M'' = Some (Num 5400000) \<and>
   formatDuration (Num 5400000) = normalized 90 \<and>
   parseDuration (drop_spaces (formatDuration (Num 5400000))) = Some (Num 5400000)"
proof -
  have v: "valid_part None" "valid_part (Some ''90'')"
    by (simp_all add: digits_def is_digit_def)
  have l: "toLowerCase ''90M'' = part None CHR ''h'' @ part (Some ''90'') CHR ''m''"
    by code_simp
  have a: "amount None = 0" "amount (Some ''90'') = 90"
    by (simp_all add: numeral_value_decimal [symmetric] numeral_value_def digit_val_def)
  have p: "parseDuration ''90M'' = Some (Num 5400000)" by code_simp
  from roundtrip [of None "Some ''90''" "''90M''"] v l a p
  show ?thesis by auto
qed

text \<open>
  The round trip does not keep the total for every well-formed string: \<open>9007199254740993m\<close>
  is parsed to the milliseconds of \<open>2 ^ 53\<close> minutes and rendered \<open>150119987579016h 32m\<close>,
  while the normalized rendering of its \<open>2 ^ 53 + 1\<close> minutes is \<open>150119987579016h 33m\<close>.
\<close>

theorem roundtrip_rounding_counterexample:
  "valid_part None \<and> valid_part (Some ''9007199254740993'') \<and>
   toLowerCase ''9007199254740993m'' =
     part None CHR ''h'' @ part (Some ''9007199254740993'') CHR ''m'' \<and>
   parseDuration ''9007199254740993m'' = Some (Num 540431955284459520000) \<and>
   formatDuration (Num 540431955284459520000) = ''150119987579016h 32m'' \<and>
   normalized (nat (amount None * 60 + amount (Some ''9007199254740993''))) =
     ''150119987579016h 33m''"
proof -
  have f: "formatDuration (Num 540431955284459520000) = ''150119987579016h 32m''"
    by code_simp
  have q: "(9007199254740993 :: nat) div 60 = 150119987579016"
    and r: "(9007199254740993 :: nat) mod 60 = 33" by simp_all
  have sq: "show_nat 150119987579016 = ''150119987579016''"
  proof -
    have "show_pos 150119987579016 = ''150119987579016''" by code_simp
    then show ?thesis by (simp add: show_nat_def)
  qed
  have sr: "show_nat 33 = ''33''"
  proof -
    have "show_pos 33 = ''33''" by code_simp
    then show ?thesis by (simp add: show_nat_def)
  qed
  have n: "normalized 9007199254740993 = ''150119987579016h 33m''"
    by (simp add: normalized_def Let_def q r sq sr)
  have k: "nat (amount None * 60 + amount (Some ''9007199254740993'')) = 9007199254740993"
    unfolding long_minutes_amount by simp
  from long_minutes_shape long_minutes_parse f n k show ?thesis by simp
qed

section \<open>Properties of the urgency classifier\<close>

lemma starts_with_prefix: "starts_with s k \<longleftrightarrow> prefix k s"
  by (induction s k rule: starts_with.induct) auto

lemma includes_str_sublist: "includes_str s k \<longleftrightarrow> sublist k s"
proof (induction s)
  case Nil
  show ?case by simp
next
  case (Cons c s)
  then show ?case by (simp add: starts_with_prefix sublist_Cons_right)
qed

lemma hasUrgentKeyword_iff:
  "hasUrgentKeyword m \<longleftrightarrow> (\<exists>k \<in> set urgentKeywords. sublist k (toLowerCase m))"
  by (simp add: hasUrgentKeyword_def list_ex_iff includes_str_sublist)

lemma get_prop_ClassificationResult:
  "get_prop (ClassificationResult u r b) ''urgency'' = Inr (Some (JStr u))"
  "get_prop (ClassificationResult u r b) ''reason'' = Inr (Some (JStr r))"
  "get_prop (ClassificationResult u r b) ''shouldInterrupt'' = Inr (Some (JBool b))"
  by (simp_all add: ClassificationResult_def)

lemma invariant_literals:
  "interrupt_invariant (ClassificationResult ''urgent'' r True)"
  "interrupt_invariant (ClassificationResult ''low'' r False)"
  "interrupt_invariant (ClassificationResult ''medium'' r False)"
  by (simp_all add: interrupt_invariant_def get_prop_ClassificationResult)

lemma set_prop_invariant:
  assumes "get_prop v ''urgency'' = Inr u"
    and "set_prop v ''shouldInterrupt'' (JBool (u = Some (JStr ''urgent''))) = Inr r"
  shows "interrupt_invariant r"
  using assms by (cases v) (auto simp add: interrupt_invariant_def update_conv')

lemma classify_try_invariant:
  assumes "classify_try env = Inr r"
  shows "interrupt_invariant r"
proof -
  from assms obtain content where c: "messages_create env = Responds content"
    by (cases "messages_create env") (simp_all add: classify_try_def)
  from assms c obtain t rest where t: "content = TextBlock t # rest"
    by (cases content; cases "hd content") (auto simp add: classify_try_def)
  from assms c t obtain v where v: "JSON_parse env t = Some v"
    by (cases "JSON_parse env t") (simp_all add: classify_try_def)
  from assms c t v obtain u where u: "get_prop v ''urgency'' = Inr u"
    by (cases "get_prop v ''urgency''") (simp_all add: classify_try_def)
  from assms c t v u have "set_prop v ''shouldInterrupt'' (JBool (u = Some (JStr ''urgent''))) = Inr r"
    by (simp add: classify_try_def)
  with u show ?thesis by (rule set_prop_invariant)
qed

lemma classifyMessage_returns:
  "\<exists>r. classifyMessage env m c s = Inr r \<and> interrupt_invariant r"
proof (cases "unconfigured (ANTHROPIC_API_KEY env)")
  case True
  then show ?thesis by (simp add: classifyMessage_def invariant_literals)
next
  case False
  show ?thesis
  proof (cases "classify_try env")
    case (Inl e)
    with False show ?thesis by (simp add: classifyMessage_def invariant_literals)
  next
    case (Inr r)
    with False classify_try_invariant [OF Inr] show ?thesis by (simp add: classifyMessage_def)
  qed
qed

lemma classify_try_object:
  assumes "messages_create env = Responds (TextBlock t # rest)"
    and "JSON_parse env t = Some (JObj ps)"
  shows "classify_try env =
    Inr (JObj (AList.update ''shouldInterrupt'' (JBool (map_of ps ''urgency'' = Some (JStr ''urgent''))) ps))"
  using assms by (simp add: classify_try_def)

lemma classify_try_fails:
  assumes "oracle_fails env"
  shows "\<exists>e. classify_try env = Inl e"
  using assms
  by (auto simp add: oracle_fails_def classify_try_def split: oracle_outcome.splits list.splits content_block.splits)

lemma classifyMessage_unconfigured:
  assumes "unconfigured (ANTHROPIC_API_KEY env)"
  shows "classifyMessage env m c s =
     (if hasUrgentKeyword m
        then Inr (ClassificationResult ''urgent'' ''Contains urgent keywords'' True)
      else Inr (ClassificationResult ''low'' ''Default classification (no AI key configured)'' False))"
  using assms by (simp add: classifyMessage_def)

lemma classifyMessage_failed:
  assumes "\<not> unconfigured (ANTHROPIC_API_KEY env)" and "classify_try env = Inl e"
  shows "classifyMessage env m c s =
     (if hasUrgentKeyword m
        then Inr (ClassificationResult ''urgent''
                    ''Contains urgent keywords (AI classification failed)'' True)
      else Inr (ClassificationResult ''medium''
                  ''Default classification (AI classification failed)'' False))"
  using assms by (simp add: classifyMessage_def)

text \<open>
  Claim C1. Every call of \<open>classifyMessage\<close> returns a result, and in that result the
  \<open>shouldInterrupt\<close> flag is the boolean \<open>urgency = 'urgent'\<close>, on the oracle path and on
  both fallback paths. When the oracle's text parses to an object, the result is that
  object with \<open>shouldInterrupt\<close> set to the locally computed boolean, whatever value the
  oracle's own JSON carried there.
\<close>

theorem classifyMessage_shouldInterrupt:
  "(\<exists>r. classifyMessage env m c s = Inr r \<and> interrupt_invariant r) \<and>
   (\<not> unconfigured (ANTHROPIC_API_KEY env) \<and>
    messages_create env = Responds (TextBlock t # rest) \<and>
    JSON_parse env t = Some (JObj ps) \<longrightarrow>
      classifyMessage env m c s =
        Inr (JObj (AList.update ''shouldInterrupt''
                     (JBool (map_of ps ''urgency'' = Some (JStr ''urgent''))) ps)))"
proof
  show "\<exists>r. classifyMessage env m c s = Inr r \<and> interrupt_invariant r"
    by (rule classifyMessage_returns)
next
  show "\<not> unconfigured (ANTHROPIC_API_KEY env) \<and>
    messages_create env = Responds (TextBlock t # rest) \<and>
    JSON_parse env t = Some (JObj ps) \<longrightarrow>
      classifyMessage env m c s =
        Inr (JObj (AList.update ''shouldInterrupt''
                     (JBool (map_of ps ''urgency'' = Some (JStr ''urgent''))) ps))"
    by (simp add: classifyMessage_def classify_try_object)
qed

theorem classifyMessage_shouldInterrupt_witness:
  "\<not> unconfigured (Some ''key'') \<and>
   classifyMessage
     \<lparr>ANTHROPIC_API_KEY = Some ''key'',
      messages_create = Responds [TextBlock ''reply''],
      JSON_parse = [''reply'' \<mapsto> JObj [(''urgency'', JStr ''low''), (''shouldInterrupt'', JBool True)]]\<rparr>
     ''lunch?'' ''general'' ''bob''
   = Inr (JObj [(''urgency'', JStr ''low''), (''shouldInterrupt'', JBool False)])"
  using classifyMessage_shouldInterrupt
    [of "\<lparr>ANTHROPIC_API_KEY = Some ''key'',
      messages_create = Responds [TextBlock ''reply''],
      JSON_parse = [''reply'' \<mapsto> JObj [(''urgency'', JStr ''low''), (''shouldInterrupt'', JBool True)]]\<rparr>"
      "''lunch?''" "''general''" "''bob''" "''reply''" "[]"
      "[(''urgency'', JStr ''low''), (''shouldInterrupt'', JBool True)]"]
  by (simp add: unconfigured_def)

text \<open>
  Claim C3, as amended. With no oracle configured, a message whose lowercased text contains
  one of the fixed urgent keywords is classified \<open>urgency = urgent\<close>, \<open>shouldInterrupt = true\<close>
  with the reason \<open>Contains urgent keywords\<close> (capital \<open>C\<close>); a message with no keyword match
  is classified \<open>urgency = low\<close>, \<open>shouldInterrupt = false\<close>.
\<close>

theorem keyword_fallback_unconfigured:
  "unconfigured (ANTHROPIC_API_KEY env) \<longrightarrow>
     ((\<exists>k \<in> set urgentKeywords. sublist k (toLowerCase m)) \<longrightarrow>
        classifyMessage env m c s =
          Inr (ClassificationResult ''urgent'' ''Contains urgent keywords'' True)) \<and>
     (\<not> (\<exists>k \<in> set urgentKeywords. sublist k (toLowerCase m)) \<longrightarrow>
        classifyMessage env m c s =
          Inr (ClassificationResult ''low''
                 ''Default classification (no AI key configured)'' False))"
  by (simp add: classifyMessage_unconfigured hasUrgentKeyword_iff)

lemma asap_keyword: "sublist ''asap'' (toLowerCase ''ASAP'')"
proof -
  have "includes_str (toLowerCase ''ASAP'') ''asap''" by code_simp
  then show ?thesis by (simp only: includes_str_sublist)
qed

lemma asap_member: "''asap'' \<in> set urgentKeywords"
  by (simp add: urgentKeywords_def)

theorem keyword_fallback_unconfigured_witness:
  "unconfigured None \<and> (\<exists>k \<in> set urgentKeywords. sublist k (toLowerCase ''ASAP'')) \<and>
   classifyMessage \<lparr>ANTHROPIC_API_KEY = None, messages_create = Rejects, JSON_parse = Map.empty\<rparr>
       ''ASAP'' ''general'' ''bob''
     = Inr (ClassificationResult ''urgent'' ''Contains urgent keywords'' True)"
proof -
  have k: "\<exists>k \<in> set urgentKeywords. sublist k (toLowerCase ''ASAP'')"
    using asap_keyword asap_member by blast
  have u: "unconfigured None" by (simp add: unconfigured_def)
  from keyword_fallback_unconfigured
    [of "\<lparr>ANTHROPIC_API_KEY = None, messages_create = Rejects, JSON_parse = Map.empty\<rparr>"
        "''ASAP''" "''general''" "''bob''"] k u
  show ?thesis by simp
qed

text \<open>
  The reason of the keyword match is not the all-lowercase string
  \<open>contains urgent keywords\<close>: on the message \<open>ASAP\<close> with no oracle configured the result
  differs from the one carrying that reason.
\<close>

theorem keyword_reason_counterexample:
  "unconfigured None \<and> sublist ''asap'' (toLowerCase ''ASAP'') \<and>
   ''asap'' \<in> set urgentKeywords \<and>
   classifyMessage \<lparr>ANTHROPIC_API_KEY = None, messages_create = Rejects, JSON_parse = Map.empty\<rparr>
       ''ASAP'' ''general'' ''bob''
     \<noteq> Inr (ClassificationResult ''urgent'' ''contains urgent keywords'' True)"
proof -
  have "hasUrgentKeyword ''ASAP''"
    using asap_keyword asap_member hasUrgentKeyword_iff by blast
  then have "classifyMessage \<lparr>ANTHROPIC_API_KEY = None, messages_create = Rejects, JSON_parse = Map.empty\<rparr>
       ''ASAP'' ''general'' ''bob''
     = Inr (ClassificationResult ''urgent'' ''Contains urgent keywords'' True)"
    by (simp add: classifyMessage_def unconfigured_def)
  moreover have "ClassificationResult ''urgent'' ''Contains urgent keywords'' True
     \<noteq> ClassificationResult ''urgent'' ''contains urgent keywords'' True"
    by (simp add: ClassificationResult_def)
  ultimately show ?thesis using asap_keyword asap_member by (simp add: unconfigured_def)
qed

text \<open>
  Claim C4. When the oracle is configured and its call fails (it throws, its first block is
  not text, or its text is not JSON), \<open>classifyMessage\<close> still returns a result rather than
  an error, and for a message without an urgent keyword that result is
  \<open>urgency = medium\<close>, \<open>shouldInterrupt = false\<close>.
\<close>

theorem oracle_failure_fallback:
  "\<not> unconfigured (ANTHROPIC_API_KEY env) \<and> oracle_fails env \<longrightarrow>
     (\<exists>r. classifyMessage env m c s = Inr r) \<and>
     (\<not> hasUrgentKeyword m \<longrightarrow>
        classifyMessage env m c s =
          Inr (ClassificationResult ''medium''
                 ''Default classification (AI classification failed)'' False))"
proof
  assume a: "\<not> unconfigured (ANTHROPIC_API_KEY env) \<and> oracle_fails env"
  then obtain e where "classify_try env = Inl e" using classify_try_fails by blast
  with a show "(\<exists>r. classifyMessage env m c s = Inr r) \<and>
     (\<not> hasUrgentKeyword m \<longrightarrow>
        classifyMessage env m c s =
          Inr (ClassificationResult ''medium''
                 ''Default classification (AI classification failed)'' False))"
    by (simp add: classifyMessage_failed)
qed

theorem oracle_failure_fallback_witness:
  "\<not> unconfigured (Some ''key'') \<and>
   oracle_fails \<lparr>ANTHROPIC_API_KEY = Some ''key'', messages_create = Responds [TextBlock ''oops''],
                 JSON_parse = Map.empty\<rparr> \<and>
   \<not> hasUrgentKeyword ''lunch?'' \<and>
   classifyMessage \<lparr>ANTHROPIC_API_KEY = Some ''key'', messages_create = Responds [TextBlock ''oops''],
                    JSON_parse = Map.empty\<rparr> ''lunch?'' ''general'' ''bob''
     = Inr (ClassificationResult ''medium'' ''Default classification (AI classification failed)'' False)"
proof -
  have u: "\<not> unconfigured (Some ''key'')" by (simp add: unconfigured_def)
  have f: "oracle_fails \<lparr>ANTHROPIC_API_KEY = Some ''key'',
      messages_create = Responds [TextBlock ''oops''], JSON_parse = Map.empty\<rparr>"
    by (simp add: oracle_fails_def)
  have k: "\<not> hasUrgentKeyword ''lunch?''" by code_simp
  from oracle_failure_fallback
    [of "\<lparr>ANTHROPIC_API_KEY = Some ''key'', messages_create = Responds [TextBlock ''oops''],
          JSON_parse = Map.empty\<rparr>" "''lunch?''" "''general''" "''bob''"] u f k
  show ?thesis by simp
qed

text \<open>
  Claim C9. The keyword test is substring containment in the lowercased message, not
  whole-word membership: whenever a keyword occurs anywhere inside the lowercased text,
  also inside a longer word such as \<open>countdown\<close>, both keyword fallbacks (no oracle
  configured, oracle call failed) classify the message \<open>urgency = urgent\<close>,
  \<open>shouldInterrupt = true\<close>.
\<close>

theorem keyword_is_substring_test:
  "(hasUrgentKeyword m \<longleftrightarrow> (\<exists>k \<in> set urgentKeywords. sublist k (toLowerCase m))) \<and>
   (k \<in> set urgentKeywords \<and> toLowerCase m = before @ k @ after \<longrightarrow>
      (unconfigured (ANTHROPIC_API_KEY env) \<longrightarrow>
         classifyMessage env m c s =
           Inr (ClassificationResult ''urgent'' ''Contains urgent keywords'' True)) \<and>
      (\<not> unconfigured (ANTHROPIC_API_KEY env) \<and> classify_try env = Inl e \<longrightarrow>
         classifyMessage env m c s =
           Inr (ClassificationResult ''urgent''
                  ''Contains urgent keywords (AI classification failed)'' True)))"
proof
  show "hasUrgentKeyword m \<longleftrightarrow> (\<exists>k \<in> set urgentKeywords. sublist k (toLowerCase m))"
    by (rule hasUrgentKeyword_iff)
next
  show "k \<in> set urgentKeywords \<and> toLowerCase m = before @ k @ after \<longrightarrow>
      (unconfigured (ANTHROPIC_API_KEY env) \<longrightarrow>
         classifyMessage env m c s =
           Inr (ClassificationResult ''urgent'' ''Contains urgent keywords'' True)) \<and>
      (\<not> unconfigured (ANTHROPIC_API_KEY env) \<and> classify_try env = Inl e \<longrightarrow>
         classifyMessage env m c s =
           Inr (ClassificationResult ''urgent''
                  ''Contains urgent keywords (AI classification failed)'' True))"
  proof
    assume a: "k \<in> set urgentKeywords \<and> toLowerCase m = before @ k @ after"
    then have "sublist k (toLowerCase m)" by (auto simp add: sublist_def)
    with a have "hasUrgentKeyword m" using hasUrgentKeyword_iff by blast
    then show "(unconfigured (ANTHROPIC_API_KEY env) \<longrightarrow>
         classifyMessage env m c s =
           Inr (ClassificationResult ''urgent'' ''Contains urgent keywords'' True)) \<and>
      (\<not> unconfigured (ANTHROPIC_API_KEY env) \<and> classify_try env = Inl e \<longrightarrow>
         classifyMessage env m c s =
           Inr (ClassificationResult ''urgent''
                  ''Contains urgent keywords (AI classification failed)'' True))"
      by (simp add: classifyMessage_unconfigured classifyMessage_failed)
  qed
qed

theorem keyword_is_substring_test_witness:
  "''down'' \<in> set urgentKeywords \<and>
   toLowerCase ''Countdown starts'' = ''count'' @ ''down'' @ '' starts'' \<and>
   unconfigured None \<and>
   classifyMessage \<lparr>ANTHROPIC_API_KEY = None, messages_create = Rejects, JSON_parse = Map.empty\<rparr>
       ''Countdown starts'' ''general'' ''bob''
     = Inr (ClassificationResult ''urgent'' ''Contains urgent keywords'' True) \<and>
   \<not> unconfigured (Some ''key'') \<and>
   classify_try \<lparr>ANTHROPIC_API_KEY = Some ''key'', messages_create = Rejects, JSON_parse = Map.empty\<rparr>
     = Inl ExternalFailure \<and>
   classifyMessage \<lparr>ANTHROPIC_API_KEY = Some ''key'', messages_create = Rejects, JSON_parse = Map.empty\<rparr>
       ''Countdown starts'' ''general'' ''bob''
     = Inr (ClassificationResult ''urgent''
              ''Contains urgent keywords (AI classification failed)'' True)"
proof -
  have d: "''down'' \<in> set urgentKeywords" by (simp add: urgentKeywords_def)
  have l: "toLowerCase ''Countdown starts'' = ''count'' @ ''down'' @ '' starts''" by code_simp
  have u: "unconfigured None" "\<not> unconfigured (Some ''key'')" by (simp_all add: unconfigured_def)
  have t: "classify_try \<lparr>ANTHROPIC_API_KEY = Some ''key'', messages_create = Rejects,
      JSON_parse = Map.empty\<rparr> = Inl ExternalFailure"
    by (simp add: classify_try_def)
  from keyword_is_substring_test
    [where m = "''Countdown starts''" and k = "''down''" and before = "''count''"
        and after = "'' starts''" and c = "''general''" and s = "''bob''" and env =
        "\<lparr>ANTHROPIC_API_KEY = None, messages_create = Rejects, JSON_parse = Map.empty\<rparr>"]
    d l u
  have first: "classifyMessage \<lparr>ANTHROPIC_API_KEY = None, messages_create = Rejects, JSON_parse = Map.empty\<rparr>
       ''Countdown starts'' ''general'' ''bob''
     = Inr (ClassificationResult ''urgent'' ''Contains urgent keywords'' True)"
    by simp
  from keyword_is_substring_test
    [where m = "''Countdown starts''" and k = "''down''" and before = "''count''"
        and after = "'' starts''" and c = "''general''" and s = "''bob''"
        and e = ExternalFailure and env =
        "\<lparr>ANTHROPIC_API_KEY = Some ''key'', messages_create = Rejects, JSON_parse = Map.empty\<rparr>"]
    d l u t
  have second: "classifyMessage \<lparr>ANTHROPIC_API_KEY = Some ''key'', messages_create = Rejects, JSON_parse = Map.empty\<rparr>
       ''Countdown starts'' ''general'' ''bob''
     = Inr (ClassificationResult ''urgent''
              ''Contains urgent keywords (AI classification failed)'' True)"
    by simp
  from d l u t first second show ?thesis by simp
qed

section \<open>Properties of the \<open>on\<close> command\<close>

lemma read_clock_tables:
  "focus_sessions (snd (read_clock w)) = focus_sessions w"
  "held_items (snd (read_clock w)) = held_items w"
  "next_id (snd (read_clock w)) = next_id w"
  "db_faults (snd (read_clock w)) = db_faults w"
  "sent_dms (snd (read_clock w)) = sent_dms w"
  by (simp_all add: read_clock_def split: list.splits)

lemma db_request_tables:
  "focus_sessions (snd (db_request w)) = focus_sessions w"
  "held_items (snd (db_request w)) = held_items w"
  "next_id (snd (db_request w)) = next_id w"
  "clock (snd (db_request w)) = clock w"
  "sent_dms (snd (db_request w)) = sent_dms w"
  by (simp_all add: db_request_def split: list.splits)

lemma getActive_world:
  "snd (getActiveFocusSession u w) = snd (db_request (snd (read_clock w)))"
  by (simp add: getActiveFocusSession_def Let_def split: prod.splits)

lemma getActive_tables:
  "focus_sessions (snd (getActiveFocusSession u w)) = focus_sessions w"
  "held_items (snd (getActiveFocusSession u w)) = held_items w"
  "next_id (snd (getActiveFocusSession u w)) = next_id w"
  "sent_dms (snd (getActiveFocusSession u w)) = sent_dms w"
  by (simp_all add: getActive_world db_request_tables read_clock_tables)

lemma two_hours: "parseDuration ''2h'' = Some (Num 7200000)"
  by code_simp

lemma handleFocusOn_existing:
  assumes "fst (getActiveFocusSession u w) = Some s"
  shows "handleFocusOn f u n d w =
     (Inr (Ephemeral (already_active_text
        (formatDuration
           (js_minus (ends_at s) (fst (read_clock (snd (getActiveFocusSession u w)))))))),
      snd (read_clock (snd (getActiveFocusSession u w))))"
proof -
  obtain w1 where g: "getActiveFocusSession u w = (Some s, w1)"
    using assms by (cases "getActiveFocusSession u w") simp
  obtain now w2 where r: "read_clock w1 = (now, w2)" by (cases "read_clock w1")
  show ?thesis by (simp add: handleFocusOn_def g r)
qed

lemma handleFocusOn_default:
  "handleFocusOn f u n None w = handleFocusOn f u n (Some ''2h'') w"
  "handleFocusOn f u n (Some []) w = handleFocusOn f u n (Some ''2h'') w"
proof -
  obtain x w1 where g: "getActiveFocusSession u w = (x, w1)"
    by (cases "getActiveFocusSession u w")
  show "handleFocusOn f u n None w = handleFocusOn f u n (Some ''2h'') w"
    by (cases x) (simp_all add: handleFocusOn_def g)
  show "handleFocusOn f u n (Some []) w = handleFocusOn f u n (Some ''2h'') w"
    by (cases x) (simp_all add: handleFocusOn_def g)
qed

lemma handleFocusOn_unparseable:
  assumes "fst (getActiveFocusSession u w) = None" and "d \<noteq> []" and "parseDuration d = None"
  shows "handleFocusOn f u n (Some d) w =
     (Inr (Ephemeral (invalid_duration_text d)), snd (getActiveFocusSession u w))"
proof -
  obtain w1 where g: "getActiveFocusSession u w = (None, w1)"
    using assms(1) by (cases "getActiveFocusSession u w") simp
  show ?thesis using assms(2,3) by (simp add: handleFocusOn_def g)
qed

lemma js_gt_not_falsy: "js_gt ms c \<Longrightarrow> 0 \<le> c \<Longrightarrow> \<not> js_falsy ms"
  by (cases ms) auto

lemma handleFocusOn_too_long:
  assumes "fst (getActiveFocusSession u w) = None" and "d \<noteq> []"
    and "parseDuration d = Some ms" and "js_gt ms (8 * 60 * 60 * 1000)"
  shows "handleFocusOn f u n (Some d) w =
     (Inr (Ephemeral max_duration_text), snd (getActiveFocusSession u w))"
proof -
  obtain w1 where g: "getActiveFocusSession u w = (None, w1)"
    using assms(1) by (cases "getActiveFocusSession u w") simp
  have "\<not> js_falsy ms" using assms(4) by (rule js_gt_not_falsy) simp
  then show ?thesis using assms(2,3,4) by (simp add: handleFocusOn_def g)
qed

lemma handleFocusOn_start:
  assumes "fst (getActiveFocusSession u w) = None" and "d \<noteq> []"
    and "parseDuration d = Some ms" and "\<not> js_falsy ms"
    and "\<not> js_gt ms (8 * 60 * 60 * 1000)"
  shows "handleFocusOn f u n (Some d) w =
     (case startFocusSession u ms (snd (getActiveFocusSession u w)) of
        (Inl e, w2) \<Rightarrow> (Inl e, w2)
      | (Inr None, w2) \<Rightarrow> (Inr (Ephemeral start_failed_text), w2)
      | (Inr (Some s), w2) \<Rightarrow>
          (Inr (Ephemeral (activated_text (formatDuration ms) (f (ends_at s)))), w2))"
proof -
  obtain w1 where g: "getActiveFocusSession u w = (None, w1)"
    using assms(1) by (cases "getActiveFocusSession u w") simp
  obtain r w2 where st: "startFocusSession u ms w1 = (r, w2)"
    by (cases "startFocusSession u ms w1")
  show ?thesis
  proof (cases r)
    case (Inl e)
    then show ?thesis using assms(2,3,4,5) by (simp add: handleFocusOn_def g st)
  next
    case (Inr x)
    then show ?thesis using assms(2,3,4,5) by (cases x) (simp_all add: handleFocusOn_def g st)
  qed
qed

lemma insert_session_row:
  assumes "fst (insert_session u a b w) = Some s"
  shows "user_id s = u \<and> started_at s = a \<and> ends_at s = b \<and> is_active s"
  using assms by (auto simp add: insert_session_def Let_def split: prod.splits if_splits)

lemma startFocusSession_unfold:
  "startFocusSession u ms w =
     (case new_Date (js_plus (Num (fst (read_clock w))) ms) of
        None \<Rightarrow> (Inl RangeError, snd (endFocusSession u (snd (read_clock w))))
      | Some t \<Rightarrow>
          (Inr (fst (insert_session u (fst (read_clock w)) t
                       (snd (endFocusSession u (snd (read_clock w)))))),
           snd (insert_session u (fst (read_clock w)) t
                  (snd (endFocusSession u (snd (read_clock w)))))))"
  by (simp add: startFocusSession_def Let_def split: prod.splits option.splits)

lemma startFocusSession_row:
  assumes "fst (startFocusSession u (Num ms) w) = Inr (Some s)"
  shows "user_id s = u \<and> started_at s = fst (read_clock w) \<and>
         ends_at s = started_at s + ms \<and> is_active s"
proof (cases "new_Date (js_plus (Num (fst (read_clock w))) (Num ms))")
  case None
  with assms show ?thesis by (simp add: startFocusSession_unfold)
next
  case (Some t)
  then have t: "t = fst (read_clock w) + ms" by (simp add: new_Date_fl)
  from assms Some have "fst (insert_session u (fst (read_clock w)) t
      (snd (endFocusSession u (snd (read_clock w))))) = Some s"
    by (simp add: startFocusSession_unfold)
  from insert_session_row [OF this] t show ?thesis by simp
qed

lemma handleFocusOn_rejected_tables:
  assumes "d \<noteq> []"
    and "parseDuration d = None \<or>
         (\<exists>ms. parseDuration d = Some ms \<and> js_gt ms (8 * 60 * 60 * 1000))
         \<or> fst (getActiveFocusSession u w) \<noteq> None"
  shows "focus_sessions (snd (handleFocusOn f u n (Some d) w)) = focus_sessions w \<and>
         held_items (snd (handleFocusOn f u n (Some d) w)) = held_items w"
proof (cases "fst (getActiveFocusSession u w)")
  case (Some s)
  then show ?thesis
    by (simp add: handleFocusOn_existing read_clock_tables getActive_tables)
next
  case None
  with assms(2) consider (bad) "parseDuration d = None"
    | (long) ms where "parseDuration d = Some ms" "js_gt ms (8 * 60 * 60 * 1000)" by auto
  then show ?thesis
  proof cases
    case bad
    with None assms(1) show ?thesis
      by (simp add: handleFocusOn_unparseable getActive_tables)
  next
    case long
    with None assms(1) show ?thesis
      by (simp add: handleFocusOn_too_long getActive_tables)
  qed
qed

text \<open>
  Claim C7. For the \<open>on\<close> command: without a duration argument the command behaves as with
  the argument \<open>2h\<close>, that is two hours, and a session it starts ends two hours after its
  start. With no active session, an argument that \<open>parseDuration\<close> does not match is answered
  by the invalid-format message, and a duration above eight hours by the maximum-duration
  message. With an active session the answer reports the remaining time of that session. In
  all three cases of rejection the two tables of the store are left as they were: no session
  is started.
\<close>

theorem focus_on_policy:
  "handleFocusOn f u n None w = handleFocusOn f u n (Some ''2h'') w \<and>
   parseDuration ''2h'' = Some (Num (2 * 60 * 60 * 1000)) \<and>
   (fst (getActiveFocusSession u w) = None \<and>
    fst (startFocusSession u (Num (2 * 60 * 60 * 1000)) (snd (getActiveFocusSession u w)))
      = Inr (Some new) \<longrightarrow>
      fst (handleFocusOn f u n None w) =
        Inr (Ephemeral (activated_text ''2h'' (f (ends_at new)))) \<and>
      ends_at new = started_at new + 2 * 60 * 60 * 1000) \<and>
   (fst (getActiveFocusSession u w) = None \<and> d \<noteq> [] \<and> parseDuration d = None \<longrightarrow>
      handleFocusOn f u n (Some d) w =
        (Inr (Ephemeral (invalid_duration_text d)), snd (getActiveFocusSession u w))) \<and>
   (fst (getActiveFocusSession u w) = None \<and> parseDuration d = Some ms \<and>
    js_gt ms (8 * 60 * 60 * 1000) \<longrightarrow>
      handleFocusOn f u n (Some d) w =
        (Inr (Ephemeral max_duration_text), snd (getActiveFocusSession u w))) \<and>
   (fst (getActiveFocusSession u w) = Some existing \<longrightarrow>
      handleFocusOn f u n a w =
        (Inr (Ephemeral (already_active_text
           (formatDuration
              (js_minus (ends_at existing)
                 (fst (read_clock (snd (getActiveFocusSession u w)))))))),
         snd (read_clock (snd (getActiveFocusSession u w))))) \<and>
   (d \<noteq> [] \<and>
    (parseDuration d = None \<or>
     (\<exists>ms. parseDuration d = Some ms \<and> js_gt ms (8 * 60 * 60 * 1000)) \<or>
     fst (getActiveFocusSession u w) \<noteq> None) \<longrightarrow>
      focus_sessions (snd (handleFocusOn f u n (Some d) w)) = focus_sessions w \<and>
      held_items (snd (handleFocusOn f u n (Some d) w)) = held_items w)"
proof (intro conjI impI)
  show "handleFocusOn f u n None w = handleFocusOn f u n (Some ''2h'') w"
    by (rule handleFocusOn_default)
  show "parseDuration ''2h'' = Some (Num (2 * 60 * 60 * 1000))"
    using two_hours by simp
next
  assume a: "fst (getActiveFocusSession u w) = None \<and>
    fst (startFocusSession u (Num (2 * 60 * 60 * 1000)) (snd (getActiveFocusSession u w)))
      = Inr (Some new)"
  have fmt: "formatDuration (Num 7200000) = ''2h''" by code_simp
  have "handleFocusOn f u n (Some ''2h'') w =
     (case startFocusSession u (Num 7200000) (snd (getActiveFocusSession u w)) of
        (Inl e, w2) \<Rightarrow> (Inl e, w2)
      | (Inr None, w2) \<Rightarrow> (Inr (Ephemeral start_failed_text), w2)
      | (Inr (Some s), w2) \<Rightarrow>
          (Inr (Ephemeral (activated_text (formatDuration (Num 7200000)) (f (ends_at s)))), w2))"
    using a by (intro handleFocusOn_start) (simp_all add: two_hours)
  with a show "fst (handleFocusOn f u n None w) =
      Inr (Ephemeral (activated_text ''2h'' (f (ends_at new))))"
    by (simp add: handleFocusOn_default fmt split: prod.splits)
  from a startFocusSession_row show "ends_at new = started_at new + 2 * 60 * 60 * 1000"
    by blast
next
  assume "fst (getActiveFocusSession u w) = None \<and> d \<noteq> [] \<and> parseDuration d = None"
  then show "handleFocusOn f u n (Some d) w =
        (Inr (Ephemeral (invalid_duration_text d)), snd (getActiveFocusSession u w))"
    by (simp add: handleFocusOn_unparseable)
next
  assume a: "fst (getActiveFocusSession u w) = None \<and> parseDuration d = Some ms \<and>
    js_gt ms (8 * 60 * 60 * 1000)"
  have "parseDuration [] = None" by code_simp
  with a have "d \<noteq> []" by auto
  with a show "handleFocusOn f u n (Some d) w =
        (Inr (Ephemeral max_duration_text), snd (getActiveFocusSession u w))"
    by (simp add: handleFocusOn_too_long)
next
  assume "fst (getActiveFocusSession u w) = Some existing"
  then show "handleFocusOn f u n a w =
        (Inr (Ephemeral (already_active_text
           (formatDuration
              (js_minus (ends_at existing)
                 (fst (read_clock (snd (getActiveFocusSession u w)))))))),
         snd (read_clock (snd (getActiveFocusSession u w))))"
    by (rule handleFocusOn_existing)
next
  assume a: "d \<noteq> [] \<and>
    (parseDuration d = None \<or>
     (\<exists>ms. parseDuration d = Some ms \<and> js_gt ms (8 * 60 * 60 * 1000)) \<or>
     fst (getActiveFocusSession u w) \<noteq> None)"
  then show "focus_sessions (snd (handleFocusOn f u n (Some d) w)) = focus_sessions w"
    using handleFocusOn_rejected_tables by blast
  from a show "held_items (snd (handleFocusOn f u n (Some d) w)) = held_items w"
    using handleFocusOn_rejected_tables by blast
qed

lemma quiet_none: "getActiveFocusSession ''U1'' quiet_world = (None, quiet_world)"
  by code_simp

lemma busy_some:
  "getActiveFocusSession ''U1'' busy_world =
     (Some \<lparr>fs_id = 0, user_id = ''U1'', started_at = 0, ends_at = 3601000, is_active = True,
            created_at = 0\<rparr>, busy_world)"
  by code_simp

lemma quiet_start:
  "fst (startFocusSession ''U1'' (Num (2 * 60 * 60 * 1000)) quiet_world) =
     Inr (Some \<lparr>fs_id = 0, user_id = ''U1'', started_at = 1000, ends_at = 7201000,
                is_active = True, created_at = 1000\<rparr>)"
  by code_simp

theorem focus_on_policy_witness:
  "fst (getActiveFocusSession ''U1'' quiet_world) = None \<and>
   fst (startFocusSession ''U1'' (Num (2 * 60 * 60 * 1000))
          (snd (getActiveFocusSession ''U1'' quiet_world))) =
     Inr (Some \<lparr>fs_id = 0, user_id = ''U1'', started_at = 1000, ends_at = 7201000,
                is_active = True, created_at = 1000\<rparr>) \<and>
   fst (handleFocusOn show_int ''U1'' ''ann'' None quiet_world) =
     Inr (Ephemeral (activated_text ''2h'' (show_int 7201000))) \<and>
   ''2x'' \<noteq> [] \<and> parseDuration ''2x'' = None \<and>
   handleFocusOn show_int ''U1'' ''ann'' (Some ''2x'') quiet_world =
     (Inr (Ephemeral (invalid_duration_text ''2x'')), quiet_world) \<and>
   parseDuration ''9h'' = Some (Num 32400000) \<and> js_gt (Num 32400000) (8 * 60 * 60 * 1000) \<and>
   handleFocusOn show_int ''U1'' ''ann'' (Some ''9h'') quiet_world =
     (Inr (Ephemeral max_duration_text), quiet_world) \<and>
   fst (getActiveFocusSession ''U1'' busy_world) =
     Some \<lparr>fs_id = 0, user_id = ''U1'', started_at = 0, ends_at = 3601000, is_active = True,
           created_at = 0\<rparr> \<and>
   handleFocusOn show_int ''U1'' ''ann'' (Some ''30m'') busy_world =
     (Inr (Ephemeral (already_active_text ''1h'')), busy_world) \<and>
   focus_sessions (snd (handleFocusOn show_int ''U1'' ''ann'' (Some ''30m'') busy_world)) =
     focus_sessions busy_world"
proof -
  have p1: "parseDuration ''2x'' = None" by code_simp
  have p2: "parseDuration ''9h'' = Some (Num 32400000)" by code_simp
  have rq: "read_clock busy_world = (1000, busy_world)" by code_simp
  have fd: "formatDuration (js_minus 3601000 1000) = ''1h''" by code_simp
  note q = focus_on_policy
    [where f = show_int and u = "''U1''" and n = "''ann''" and w = quiet_world
       and new = "\<lparr>fs_id = 0, user_id = ''U1'', started_at = 1000, ends_at = 7201000,
                    is_active = True, created_at = 1000\<rparr>"]
  from q [where d = "''2x''"] quiet_none quiet_start p1
  have a: "fst (handleFocusOn show_int ''U1'' ''ann'' None quiet_world) =
      Inr (Ephemeral (activated_text ''2h'' (show_int 7201000)))"
    and b: "handleFocusOn show_int ''U1'' ''ann'' (Some ''2x'') quiet_world =
      (Inr (Ephemeral (invalid_duration_text ''2x'')), quiet_world)"
    by auto
  from q [where d = "''9h''" and ms = "Num 32400000"] quiet_none p2
  have c: "handleFocusOn show_int ''U1'' ''ann'' (Some ''9h'') quiet_world =
      (Inr (Ephemeral max_duration_text), quiet_world)"
    by auto
  from focus_on_policy
    [where f = show_int and u = "''U1''" and n = "''ann''" and w = busy_world
       and d = "''30m''" and a = "Some ''30m''"
       and existing = "\<lparr>fs_id = 0, user_id = ''U1'', started_at = 0, ends_at = 3601000,
                         is_active = True, created_at = 0\<rparr>"]
    busy_some rq fd
  have d: "handleFocusOn show_int ''U1'' ''ann'' (Some ''30m'') busy_world =
      (Inr (Ephemeral (already_active_text ''1h'')), busy_world)"
    and e: "focus_sessions (snd (handleFocusOn show_int ''U1'' ''ann'' (Some ''30m'') busy_world)) =
      focus_sessions busy_world"
    by simp_all
  from a b c d e quiet_none quiet_start busy_some p1 p2 show ?thesis by simp
qed

section \<open>Properties of the session manager\<close>

lemma most_recent_mem: "most_recent xs = Some s \<Longrightarrow> s \<in> set xs"
  by (induction xs arbitrary: s) (auto split: option.splits if_splits)

lemma getActive_result:
  assumes "fst (getActiveFocusSession u w) = Some s"
  shows "s \<in> set (focus_sessions w) \<and> is_active s \<and> user_id s = u"
proof -
  obtain now w1 where r: "read_clock w = (now, w1)" by (cases "read_clock w")
  obtain err w2 where q: "db_request w1 = (err, w2)" by (cases "db_request w1")
  have t: "focus_sessions w2 = focus_sessions w"
    using db_request_tables(1) [of w1] read_clock_tables(1) [of w] r q by simp
  from assms r q have "most_recent
      (filter (\<lambda>s. user_id s = u \<and> is_active s \<and> now < ends_at s) (focus_sessions w2)) = Some s"
    by (simp add: getActiveFocusSession_def split: if_splits)
  then have "s \<in> set (filter (\<lambda>s. user_id s = u \<and> is_active s \<and> now < ends_at s) (focus_sessions w2))"
    by (rule most_recent_mem)
  with t show ?thesis by simp
qed

lemma deactivate_tables:
  "held_items (deactivate sid w) = held_items w"
  "next_id (deactivate sid w) = next_id w"
  "sent_dms (deactivate sid w) = sent_dms w"
proof -
  obtain err w1 where q: "db_request w = (err, w1)" by (cases "db_request w")
  have t: "held_items w1 = held_items w" "next_id w1 = next_id w" "sent_dms w1 = sent_dms w"
    using db_request_tables [of w] q by simp_all
  show "held_items (deactivate sid w) = held_items w"
    "next_id (deactivate sid w) = next_id w"
    "sent_dms (deactivate sid w) = sent_dms w"
    using t by (simp_all add: deactivate_def q)
qed

lemma deactivate_sessions:
  "focus_sessions (deactivate sid w) =
     (if fst (db_request w) then focus_sessions w
      else map (\<lambda>s. if fs_id s = sid then s\<lparr>is_active := False\<rparr> else s) (focus_sessions w))"
proof -
  obtain err w1 where q: "db_request w = (err, w1)" by (cases "db_request w")
  have t: "focus_sessions w1 = focus_sessions w"
    using db_request_tables(1) [of w] q by simp
  show ?thesis using t by (simp add: deactivate_def q)
qed

lemma deactivate_world:
  "db_faults (deactivate sid w) = db_faults (snd (db_request w))"
  by (simp add: deactivate_def Let_def split: prod.splits)

lemma deactivated_rows:
  "list_all (\<lambda>r. fs_id r = sid \<longrightarrow> \<not> is_active r)
     (map (\<lambda>s. if fs_id s = sid then s\<lparr>is_active := False\<rparr> else s) xs)"
  by (induction xs) simp_all

lemma deactivated_other_rows:
  "list_all (\<lambda>r. fs_id r = k \<longrightarrow> \<not> is_active r) xs \<Longrightarrow>
   list_all (\<lambda>r. fs_id r = k \<longrightarrow> \<not> is_active r)
     (map (\<lambda>s. if fs_id s = sid then s\<lparr>is_active := False\<rparr> else s) xs)"
  by (induction xs) simp_all

lemma inactive_deactivate:
  assumes "inactive k w"
  shows "inactive k (deactivate sid w)"
proof (cases "fst (db_request w)")
  case True
  with assms show ?thesis by (simp add: inactive_def deactivate_sessions)
next
  case False
  with assms deactivated_other_rows [of k "focus_sessions w" sid] show ?thesis
    by (simp add: inactive_def deactivate_sessions)
qed

lemma deactivate_inactive:
  assumes "\<not> fst (db_request w)"
  shows "inactive sid (deactivate sid w)"
  using assms deactivated_rows [of sid "focus_sessions w"]
  by (simp add: inactive_def deactivate_sessions)

lemma select_tables:
  "focus_sessions (snd (select_held_items sid w)) = focus_sessions w"
  "held_items (snd (select_held_items sid w)) = held_items w"
  "next_id (snd (select_held_items sid w)) = next_id w"
proof -
  obtain err w1 where q: "db_request w = (err, w1)" by (cases "db_request w")
  have t: "focus_sessions w1 = focus_sessions w" "held_items w1 = held_items w"
    "next_id w1 = next_id w"
    using db_request_tables [of w] q by simp_all
  show "focus_sessions (snd (select_held_items sid w)) = focus_sessions w"
    "held_items (snd (select_held_items sid w)) = held_items w"
    "next_id (snd (select_held_items sid w)) = next_id w"
    using t by (simp_all add: select_held_items_def q)
qed

lemma select_items:
  "fst (select_held_items sid w) = Some items \<Longrightarrow> \<forall>i \<in> set items. session_id i = sid"
  by (auto simp add: select_held_items_def Let_def split: prod.splits if_splits)

lemma inactive_select: "inactive k (snd (select_held_items sid w)) = inactive k w"
  by (simp add: inactive_def select_tables)

lemma inactive_getActive: "inactive k (snd (getActiveFocusSession u w)) = inactive k w"
  by (simp add: inactive_def getActive_tables)

lemma inactive_read_clock: "inactive k (snd (read_clock w)) = inactive k w"
  by (simp add: inactive_def read_clock_tables)

lemma endFocusSession_none:
  assumes "fst (getActiveFocusSession u w) = None"
  shows "endFocusSession u w = ([], snd (getActiveFocusSession u w))"
proof -
  obtain w1 where g: "getActiveFocusSession u w = (None, w1)"
    using assms by (cases "getActiveFocusSession u w") simp
  show ?thesis by (simp add: endFocusSession_def g)
qed

lemma endFocusSession_some:
  assumes "fst (getActiveFocusSession u w) = Some s"
  shows "endFocusSession u w =
     (case fst (select_held_items (fs_id s)
                  (deactivate (fs_id s) (snd (getActiveFocusSession u w)))) of
        None \<Rightarrow> [] | Some items \<Rightarrow> items,
      snd (select_held_items (fs_id s)
             (deactivate (fs_id s) (snd (getActiveFocusSession u w)))))"
proof -
  obtain w1 where g: "getActiveFocusSession u w = (Some s, w1)"
    using assms by (cases "getActiveFocusSession u w") simp
  obtain r w3 where q: "select_held_items (fs_id s) (deactivate (fs_id s) w1) = (r, w3)"
    by (cases "select_held_items (fs_id s) (deactivate (fs_id s) w1)")
  show ?thesis by (simp add: endFocusSession_def g q Let_def)
qed

lemma endFocusSession_tables:
  "held_items (snd (endFocusSession u w)) = held_items w"
  "next_id (snd (endFocusSession u w)) = next_id w"
proof -
  show "held_items (snd (endFocusSession u w)) = held_items w"
    by (cases "fst (getActiveFocusSession u w)")
       (simp_all add: endFocusSession_none endFocusSession_some select_tables
          deactivate_tables getActive_tables)
  show "next_id (snd (endFocusSession u w)) = next_id w"
    by (cases "fst (getActiveFocusSession u w)")
       (simp_all add: endFocusSession_none endFocusSession_some select_tables
          deactivate_tables getActive_tables)
qed

lemma inactive_endFocusSession:
  "inactive k w \<Longrightarrow> inactive k (snd (endFocusSession u w))"
  by (cases "fst (getActiveFocusSession u w)")
     (simp_all add: endFocusSession_none endFocusSession_some inactive_select
        inactive_deactivate inactive_getActive)

lemma endFocusSession_items:
  assumes "inactive k w"
  shows "\<forall>i \<in> set (fst (endFocusSession u w)). session_id i \<noteq> k"
proof (cases "fst (getActiveFocusSession u w)")
  case None
  then show ?thesis by (simp add: endFocusSession_none)
next
  case (Some s)
  from getActive_result [OF Some] assms have ne: "fs_id s \<noteq> k"
    by (auto simp add: inactive_def list_all_iff)
  show ?thesis
  proof (cases "fst (select_held_items (fs_id s)
                  (deactivate (fs_id s) (snd (getActiveFocusSession u w))))")
    case None
    with Some show ?thesis by (simp add: endFocusSession_some)
  next
    case (Some items)
    from select_items [OF Some] ne have "\<forall>i \<in> set items. session_id i \<noteq> k" by auto
    with Some \<open>fst (getActiveFocusSession u w) = Some s\<close> show ?thesis
      by (simp add: endFocusSession_some)
  qed
qed

lemma insert_session_tables:
  "held_items (snd (insert_session u a b w)) = held_items w"
proof -
  obtain err w1 where q: "db_request w = (err, w1)" by (cases "db_request w")
  have t: "held_items w1 = held_items w"
    using db_request_tables [of w] q by simp
  show ?thesis using t by (simp add: insert_session_def q Let_def)
qed

lemma inactive_insert_session:
  assumes "inactive k w" and "k < next_id w"
  shows "inactive k (snd (insert_session u a b w)) \<and> k < next_id (snd (insert_session u a b w))"
proof -
  obtain err w1 where q: "db_request w = (err, w1)" by (cases "db_request w")
  have t: "focus_sessions w1 = focus_sessions w" "next_id w1 = next_id w"
    using db_request_tables [of w] q by simp_all
  show ?thesis using assms t
    by (cases err) (auto simp add: insert_session_def q inactive_def Let_def)
qed

lemma inactive_startFocusSession:
  assumes "inactive k w" and "k < next_id w"
  shows "inactive k (snd (startFocusSession u ms w)) \<and> k < next_id (snd (startFocusSession u ms w))"
proof -
  let ?w2 = "snd (endFocusSession u (snd (read_clock w)))"
  have i2: "inactive k ?w2"
    using assms(1) by (simp add: inactive_endFocusSession inactive_read_clock)
  have n2: "k < next_id ?w2"
    using assms(2) by (simp add: endFocusSession_tables read_clock_tables)
  show ?thesis
  proof (cases "new_Date (js_plus (Num (fst (read_clock w))) ms)")
    case None
    with i2 n2 show ?thesis by (simp add: startFocusSession_unfold)
  next
    case (Some t)
    with inactive_insert_session [OF i2 n2, of u "fst (read_clock w)" t]
    show ?thesis by (simp add: startFocusSession_unfold)
  qed
qed

lemma surfaced_inactive:
  "inactive k w \<Longrightarrow> k < next_id w \<Longrightarrow> \<forall>i \<in> set (surfaced cs w). session_id i \<noteq> k"
proof (induction cs arbitrary: w)
  case Nil
  show ?case by simp
next
  case (Cons c cs)
  show ?case
  proof (cases c)
    case (EndCall u)
    obtain items w1 where e: "endFocusSession u w = (items, w1)"
      by (cases "endFocusSession u w")
    have "inactive k w1" using inactive_endFocusSession [OF Cons.prems(1), of u] e by simp
    moreover have "k < next_id w1" using endFocusSession_tables(2) [of u w] e Cons.prems(2) by simp
    ultimately have "\<forall>i \<in> set (surfaced cs w1). session_id i \<noteq> k" by (rule Cons.IH)
    moreover have "\<forall>i \<in> set items. session_id i \<noteq> k"
      using endFocusSession_items [OF Cons.prems(1), of u] e by simp
    ultimately show ?thesis using EndCall e by auto
  next
    case (StartCall u ms)
    from inactive_startFocusSession [OF Cons.prems, of u ms]
    have "\<forall>i \<in> set (surfaced cs (snd (startFocusSession u ms w))). session_id i \<noteq> k"
      by (intro Cons.IH) simp_all
    with StartCall show ?thesis by simp
  qed
qed

lemma db_request_no_faults: "db_faults w = [] \<Longrightarrow> db_request w = (False, w)"
  by (simp add: db_request_def)

lemma db_request_faults: "db_faults w = f # fs \<Longrightarrow> db_request w = (f, w\<lparr>db_faults := fs\<rparr>)"
  by (simp add: db_request_def)

lemma select_fails:
  assumes "db_faults w = True # fs"
  shows "fst (select_held_items sid w) = None"
  using assms by (simp add: select_held_items_def db_request_def)

text \<open>
  Claim C10. \<open>endFocusSession\<close> is not atomic. It reads the held items from the store as it
  is after the update that marks the session inactive. When that update succeeds and the
  read of the held items then fails, it returns the empty list, the session stays inactive
  and its held items stay in the store; no later call of the session manager returns an
  item of that session.
\<close>

theorem endFocusSession_not_atomic:
  "(fst (getActiveFocusSession u w) = Some s \<longrightarrow>
      endFocusSession u w =
        (case fst (select_held_items (fs_id s)
                     (deactivate (fs_id s) (snd (getActiveFocusSession u w)))) of
           None \<Rightarrow> [] | Some items \<Rightarrow> items,
         snd (select_held_items (fs_id s)
                (deactivate (fs_id s) (snd (getActiveFocusSession u w)))))) \<and>
   (fst (getActiveFocusSession u w) = Some s \<and>
    db_faults (snd (getActiveFocusSession u w)) = False # True # rest \<and>
    fs_id s < next_id w \<longrightarrow>
      fst (endFocusSession u w) = [] \<and>
      inactive (fs_id s) (snd (endFocusSession u w)) \<and>
      held_items (snd (endFocusSession u w)) = held_items w \<and>
      (\<forall>i \<in> set (surfaced cs (snd (endFocusSession u w))). session_id i \<noteq> fs_id s))"
proof (intro conjI impI)
  assume "fst (getActiveFocusSession u w) = Some s"
  then show "endFocusSession u w =
        (case fst (select_held_items (fs_id s)
                     (deactivate (fs_id s) (snd (getActiveFocusSession u w)))) of
           None \<Rightarrow> [] | Some items \<Rightarrow> items,
         snd (select_held_items (fs_id s)
                (deactivate (fs_id s) (snd (getActiveFocusSession u w)))))"
    by (rule endFocusSession_some)
next
  assume a: "fst (getActiveFocusSession u w) = Some s \<and>
    db_faults (snd (getActiveFocusSession u w)) = False # True # rest \<and>
    fs_id s < next_id w"
  define w1 where "w1 = snd (getActiveFocusSession u w)"
  define w2 where "w2 = deactivate (fs_id s) w1"
  from a have f1: "db_faults w1 = False # True # rest" by (simp add: w1_def)
  then have ok: "\<not> fst (db_request w1)" by (simp add: db_request_def)
  have f2: "db_faults w2 = True # rest"
    using f1 by (simp add: w2_def deactivate_world db_request_def)
  have none: "fst (select_held_items (fs_id s) w2) = None"
    using f2 by (rule select_fails)
  have e: "endFocusSession u w = ([], snd (select_held_items (fs_id s) w2))"
    using a none by (simp add: endFocusSession_some w1_def w2_def)
  show "fst (endFocusSession u w) = []" using e by simp
  have "inactive (fs_id s) w2" unfolding w2_def using ok by (rule deactivate_inactive)
  then show i: "inactive (fs_id s) (snd (endFocusSession u w))"
    using e by (simp add: inactive_select)
  show "held_items (snd (endFocusSession u w)) = held_items w"
    by (rule endFocusSession_tables)
  have "fs_id s < next_id (snd (endFocusSession u w))"
    using a by (simp add: endFocusSession_tables)
  with i show "\<forall>i \<in> set (surfaced cs (snd (endFocusSession u w))). session_id i \<noteq> fs_id s"
    by (rule surfaced_inactive)
qed

lemma faulty_lookup:
  "getActiveFocusSession ''U1'' faulty_world =
     (Some \<lparr>fs_id = 0, user_id = ''U1'', started_at = 0, ends_at = 3601000, is_active = True,
            created_at = 0\<rparr>, held_world\<lparr>db_faults := [False, True]\<rparr>)"
  by code_simp

theorem endFocusSession_not_atomic_witness:
  "fst (getActiveFocusSession ''U1'' faulty_world) =
     Some \<lparr>fs_id = 0, user_id = ''U1'', started_at = 0, ends_at = 3601000, is_active = True,
           created_at = 0\<rparr> \<and>
   db_faults (snd (getActiveFocusSession ''U1'' faulty_world)) = False # True # [] \<and>
   (0 :: nat) < next_id faulty_world \<and>
   fst (endFocusSession ''U1'' faulty_world) = [] \<and>
   held_items (snd (endFocusSession ''U1'' faulty_world)) = [lunch_item] \<and>
   session_id lunch_item = 0 \<and>
   focus_sessions (snd (endFocusSession ''U1'' faulty_world)) =
     [\<lparr>fs_id = 0, user_id = ''U1'', started_at = 0, ends_at = 3601000, is_active = False,
       created_at = 0\<rparr>] \<and>
   surfaced [EndCall ''U1'', StartCall ''U1'' (Num 60000), EndCall ''U1'']
     (snd (endFocusSession ''U1'' faulty_world)) = []"
proof -
  have n: "(0 :: nat) < next_id faulty_world" by code_simp
  have h: "held_items faulty_world = [lunch_item]" by code_simp
  have l: "session_id lunch_item = 0" by code_simp
  have d: "db_faults (held_world\<lparr>db_faults := [False, True]\<rparr>) = [False, True]" by simp
  have t: "focus_sessions (snd (endFocusSession ''U1'' faulty_world)) =
     [\<lparr>fs_id = 0, user_id = ''U1'', started_at = 0, ends_at = 3601000, is_active = False,
       created_at = 0\<rparr>]" by code_simp
  have s: "surfaced [EndCall ''U1'', StartCall ''U1'' (Num 60000), EndCall ''U1'']
     (snd (endFocusSession ''U1'' faulty_world)) = []" by code_simp
  from endFocusSession_not_atomic
    [where u = "''U1''" and w = faulty_world and rest = "[]"
       and cs = "[EndCall ''U1'', StartCall ''U1'' (Num 60000), EndCall ''U1'']"
       and s = "\<lparr>fs_id = 0, user_id = ''U1'', started_at = 0, ends_at = 3601000,
                  is_active = True, created_at = 0\<rparr>"]
    faulty_lookup n h l d
  have "fst (endFocusSession ''U1'' faulty_world) = [] \<and>
      held_items (snd (endFocusSession ''U1'' faulty_world)) = [lunch_item]"
    by auto
  with faulty_lookup n l d t s show ?thesis by simp
qed

lemma read_clock_no_faults: "db_faults w = [] \<Longrightarrow> db_faults (snd (read_clock w)) = []"
  by (simp add: read_clock_tables)

lemma getActive_no_faults:
  assumes "db_faults w = []"
  shows "snd (getActiveFocusSession u w) = snd (read_clock w)"
  using assms by (simp add: getActive_world db_request_no_faults read_clock_tables)

lemma deactivate_no_faults:
  assumes "db_faults w = []"
  shows "deactivate sid w =
     w\<lparr>focus_sessions :=
         map (\<lambda>s. if fs_id s = sid then s\<lparr>is_active := False\<rparr> else s) (focus_sessions w)\<rparr>"
  using assms by (simp add: deactivate_def db_request_no_faults)

lemma select_no_faults:
  assumes "db_faults w = []"
  shows "snd (select_held_items sid w) = w"
  using assms by (simp add: select_held_items_def db_request_no_faults)

lemma endFocusSession_no_faults:
  assumes "fst (getActiveFocusSession u w) = Some s" and "db_faults w = []"
  shows "snd (endFocusSession u w) =
     (snd (read_clock w))\<lparr>focus_sessions :=
         map (\<lambda>r. if fs_id r = fs_id s then r\<lparr>is_active := False\<rparr> else r) (focus_sessions w)\<rparr>"
proof -
  let ?w1 = "snd (read_clock w)"
  have f1: "db_faults ?w1 = []" using assms(2) by (rule read_clock_no_faults)
  have g: "snd (getActiveFocusSession u w) = ?w1" using assms(2) by (rule getActive_no_faults)
  have d: "deactivate (fs_id s) ?w1 =
      ?w1\<lparr>focus_sessions :=
         map (\<lambda>r. if fs_id r = fs_id s then r\<lparr>is_active := False\<rparr> else r) (focus_sessions ?w1)\<rparr>"
    using f1 by (rule deactivate_no_faults)
  have f2: "db_faults (deactivate (fs_id s) ?w1) = []" using f1 by (simp add: d)
  show ?thesis
    using assms(1) select_no_faults [OF f2] by (simp add: endFocusSession_some g d read_clock_tables)
qed

lemma insert_session_no_faults:
  assumes "db_faults w = []"
  shows "insert_session u a b w =
     (Some \<lparr>fs_id = next_id w, user_id = u, started_at = a, ends_at = b, is_active = True,
            created_at = clock w\<rparr>,
      w\<lparr>focus_sessions := focus_sessions w @
            [\<lparr>fs_id = next_id w, user_id = u, started_at = a, ends_at = b, is_active = True,
              created_at = clock w\<rparr>],
        next_id := Suc (next_id w)\<rparr>)"
  using assms by (simp add: insert_session_def db_request_no_faults Let_def)

text \<open>
  Claim C2, as amended. \<open>startFocusSession\<close> runs \<open>endFocusSession\<close> for the user to its end
  before it builds and inserts the new row, and drops the held items that call returns: its
  result is the stored row or a failure signal, or a \<^verbatim>\<open>RangeError\<close> thrown, after the prior
  session was ended and with no row inserted, when the end time is not a valid date. When
  the user has an active session, the end time is a valid date and no request to the store
  fails, the prior session is inactive afterwards, the new row is stored after it as the only
  change besides, the call returns the new row alone, and the held items of the prior
  session stay in the store and are returned by no later call of the session manager.
\<close>

theorem startFocusSession_ends_prior:
  "startFocusSession u ms w =
     (case new_Date (js_plus (Num (fst (read_clock w))) ms) of
        None \<Rightarrow> (Inl RangeError, snd (endFocusSession u (snd (read_clock w))))
      | Some t \<Rightarrow>
          (Inr (fst (insert_session u (fst (read_clock w)) t
                       (snd (endFocusSession u (snd (read_clock w)))))),
           snd (insert_session u (fst (read_clock w)) t
                  (snd (endFocusSession u (snd (read_clock w))))))) \<and>
   (fst (getActiveFocusSession u (snd (read_clock w))) = Some s \<and> db_faults w = [] \<and>
    new_Date (js_plus (Num (fst (read_clock w))) ms) = None \<longrightarrow>
      (\<exists>w'. startFocusSession u ms w = (Inl RangeError, w') \<and>
         focus_sessions w' =
           map (\<lambda>r. if fs_id r = fs_id s then r\<lparr>is_active := False\<rparr> else r)
             (focus_sessions w) \<and>
         held_items w' = held_items w)) \<and>
   (fst (getActiveFocusSession u (snd (read_clock w))) = Some s \<and> db_faults w = [] \<and>
    fs_id s < next_id w \<and>
    new_Date (js_plus (Num (fst (read_clock w))) ms) = Some t \<longrightarrow>
      (\<exists>new w'. startFocusSession u ms w = (Inr (Some new), w') \<and>
         fs_id new = next_id w \<and> user_id new = u \<and> started_at new = fst (read_clock w) \<and>
         ends_at new = t \<and> is_active new \<and>
         focus_sessions w' =
           map (\<lambda>r. if fs_id r = fs_id s then r\<lparr>is_active := False\<rparr> else r)
             (focus_sessions w) @ [new] \<and>
         inactive (fs_id s) w' \<and>
         held_items w' = held_items w \<and>
         (\<forall>i \<in> set (surfaced cs w'). session_id i \<noteq> fs_id s)))"
proof (intro conjI impI)
  show "startFocusSession u ms w =
     (case new_Date (js_plus (Num (fst (read_clock w))) ms) of
        None \<Rightarrow> (Inl RangeError, snd (endFocusSession u (snd (read_clock w))))
      | Some t \<Rightarrow>
          (Inr (fst (insert_session u (fst (read_clock w)) t
                       (snd (endFocusSession u (snd (read_clock w)))))),
           snd (insert_session u (fst (read_clock w)) t
                  (snd (endFocusSession u (snd (read_clock w)))))))"
    by (rule startFocusSession_unfold)
next
  assume a: "fst (getActiveFocusSession u (snd (read_clock w))) = Some s \<and> db_faults w = [] \<and>
    new_Date (js_plus (Num (fst (read_clock w))) ms) = None"
  let ?w1 = "snd (read_clock w)"
  let ?deact = "map (\<lambda>r. if fs_id r = fs_id s then r\<lparr>is_active := False\<rparr> else r) (focus_sessions w)"
  have f1: "db_faults ?w1 = []" using a by (simp add: read_clock_no_faults)
  have w2: "snd (endFocusSession u ?w1) = (snd (read_clock ?w1))\<lparr>focus_sessions := ?deact\<rparr>"
    using a f1 by (simp add: endFocusSession_no_faults read_clock_tables)
  have st: "startFocusSession u ms w = (Inl RangeError, snd (endFocusSession u ?w1))"
    using a by (simp add: startFocusSession_unfold)
  have "focus_sessions (snd (endFocusSession u ?w1)) = ?deact" by (simp add: w2)
  moreover have "held_items (snd (endFocusSession u ?w1)) = held_items w"
    by (simp add: w2 read_clock_tables)
  ultimately show "\<exists>w'. startFocusSession u ms w = (Inl RangeError, w') \<and>
         focus_sessions w' =
           map (\<lambda>r. if fs_id r = fs_id s then r\<lparr>is_active := False\<rparr> else r)
             (focus_sessions w) \<and>
         held_items w' = held_items w"
    using st by blast
next
  assume a: "fst (getActiveFocusSession u (snd (read_clock w))) = Some s \<and> db_faults w = [] \<and>
    fs_id s < next_id w \<and> new_Date (js_plus (Num (fst (read_clock w))) ms) = Some t"
  let ?now = "fst (read_clock w)"
  let ?w1 = "snd (read_clock w)"
  let ?deact = "map (\<lambda>r. if fs_id r = fs_id s then r\<lparr>is_active := False\<rparr> else r) (focus_sessions w)"
  define w2 where "w2 = snd (endFocusSession u ?w1)"
  have f1: "db_faults ?w1 = []" using a by (simp add: read_clock_no_faults)
  have w2: "w2 = (snd (read_clock ?w1))\<lparr>focus_sessions := ?deact\<rparr>"
    unfolding w2_def using a f1 by (simp add: endFocusSession_no_faults read_clock_tables)
  have f2: "db_faults w2 = []" using f1 by (simp add: w2 read_clock_tables)
  have n2: "next_id w2 = next_id w" by (simp add: w2 read_clock_tables)
  have h2: "held_items w2 = held_items w" by (simp add: w2 read_clock_tables)
  have s2: "focus_sessions w2 = ?deact" by (simp add: w2)
  define new where "new = \<lparr>fs_id = next_id w, user_id = u, started_at = ?now,
      ends_at = t, is_active = True, created_at = clock w2\<rparr>"
  define w' where "w' = w2\<lparr>focus_sessions := focus_sessions w2 @ [new], next_id := Suc (next_id w2)\<rparr>"
  have ins: "insert_session u ?now t w2 = (Some new, w')"
    using insert_session_no_faults [OF f2, of u ?now t] by (simp add: new_def w'_def n2)
  have st: "startFocusSession u ms w = (Inr (Some new), w')"
    using a ins by (simp add: startFocusSession_unfold w2_def [symmetric])
  have fs: "focus_sessions w' = ?deact @ [new]" by (simp add: w'_def s2)
  have "list_all (\<lambda>r. fs_id r = fs_id s \<longrightarrow> \<not> is_active r) ?deact"
    by (rule deactivated_rows)
  moreover have "fs_id new \<noteq> fs_id s" using a by (simp add: new_def)
  ultimately have ina: "inactive (fs_id s) w'" by (simp add: inactive_def fs)
  have hw: "held_items w' = held_items w" by (simp add: w'_def h2)
  have "fs_id s < next_id w'" using a by (simp add: w'_def n2)
  with ina have sf: "\<forall>i \<in> set (surfaced cs w'). session_id i \<noteq> fs_id s"
    by (rule surfaced_inactive)
  have row: "fs_id new = next_id w" "user_id new = u" "started_at new = ?now"
    "ends_at new = t" "is_active new"
    by (simp_all add: new_def)
  from st row fs ina hw sf
  show "\<exists>new w'. startFocusSession u ms w = (Inr (Some new), w') \<and>
         fs_id new = next_id w \<and> user_id new = u \<and> started_at new = fst (read_clock w) \<and>
         ends_at new = t \<and> is_active new \<and>
         focus_sessions w' =
           map (\<lambda>r. if fs_id r = fs_id s then r\<lparr>is_active := False\<rparr> else r)
             (focus_sessions w) @ [new] \<and>
         inactive (fs_id s) w' \<and>
         held_items w' = held_items w \<and>
         (\<forall>i \<in> set (surfaced cs w'). session_id i \<noteq> fs_id s)"
    by blast
qed

lemma held_lookup:
  "fst (getActiveFocusSession ''U1'' (snd (read_clock held_world))) =
     Some \<lparr>fs_id = 0, user_id = ''U1'', started_at = 0, ends_at = 3601000, is_active = True,
           created_at = 0\<rparr>"
  by code_simp

theorem startFocusSession_ends_prior_witness:
  "fst (getActiveFocusSession ''U1'' (snd (read_clock held_world))) =
     Some \<lparr>fs_id = 0, user_id = ''U1'', started_at = 0, ends_at = 3601000, is_active = True,
           created_at = 0\<rparr> \<and>
   db_faults held_world = [] \<and> (0 :: nat) < next_id held_world \<and>
   new_Date (js_plus (Num (fst (read_clock held_world))) (Num 60000)) = Some 61000 \<and>
   (\<exists>new w'. startFocusSession ''U1'' (Num 60000) held_world = (Inr (Some new), w') \<and>
      fs_id new = 2 \<and> started_at new = 1000 \<and> ends_at new = 61000 \<and> is_active new \<and>
      focus_sessions w' =
        [\<lparr>fs_id = 0, user_id = ''U1'', started_at = 0, ends_at = 3601000, is_active = False,
          created_at = 0\<rparr>, new] \<and>
      held_items w' = [lunch_item]) \<and>
   surfaced [EndCall ''U1''] (snd (startFocusSession ''U1'' (Num 60000) held_world)) = [] \<and>
   new_Date (js_plus (Num (fst (read_clock held_world))) PosInf) = None \<and>
   (\<exists>w'. startFocusSession ''U1'' PosInf held_world = (Inl RangeError, w') \<and>
      focus_sessions w' =
        [\<lparr>fs_id = 0, user_id = ''U1'', started_at = 0, ends_at = 3601000, is_active = False,
          created_at = 0\<rparr>] \<and>
      held_items w' = [lunch_item])"
proof -
  have f: "db_faults held_world = []" by code_simp
  have n: "next_id held_world = 2" by code_simp
  have c: "fst (read_clock held_world) = 1000" by code_simp
  have h: "held_items held_world = [lunch_item]" by code_simp
  have t: "focus_sessions held_world =
      [\<lparr>fs_id = 0, user_id = ''U1'', started_at = 0, ends_at = 3601000, is_active = True,
        created_at = 0\<rparr>]" by code_simp
  have sf: "surfaced [EndCall ''U1''] (snd (startFocusSession ''U1'' (Num 60000) held_world)) = []"
    by code_simp
  have d1: "new_Date (js_plus (Num (fst (read_clock held_world))) (Num 60000)) = Some 61000"
    by code_simp
  have d2: "new_Date (js_plus (Num (fst (read_clock held_world))) PosInf) = None"
    by code_simp
  let ?s = "\<lparr>fs_id = 0, user_id = ''U1'', started_at = 0, ends_at = 3601000,
                  is_active = True, created_at = 0\<rparr>"
  have hyp: "fst (getActiveFocusSession ''U1'' (snd (read_clock held_world))) = Some ?s \<and>
      db_faults held_world = [] \<and> fs_id ?s < next_id held_world \<and>
      new_Date (js_plus (Num (fst (read_clock held_world))) (Num 60000)) = Some 61000"
    using held_lookup f n d1 by simp
  from startFocusSession_ends_prior
    [where u = "''U1''" and ms = "Num 60000" and w = held_world and cs = "[EndCall ''U1'']"
       and s = ?s and t = 61000] hyp
  obtain new w' where r: "startFocusSession ''U1'' (Num 60000) held_world = (Inr (Some new), w')"
    "fs_id new = next_id held_world" "started_at new = fst (read_clock held_world)"
    "ends_at new = 61000" "is_active new"
    "focus_sessions w' =
       map (\<lambda>r. if fs_id r = fs_id ?s then r\<lparr>is_active := False\<rparr> else r)
         (focus_sessions held_world) @ [new]"
    "held_items w' = held_items held_world"
    by blast
  have "startFocusSession ''U1'' (Num 60000) held_world = (Inr (Some new), w') \<and>
      fs_id new = 2 \<and> started_at new = 1000 \<and> ends_at new = 61000 \<and> is_active new \<and>
      focus_sessions w' =
        [\<lparr>fs_id = 0, user_id = ''U1'', started_at = 0, ends_at = 3601000, is_active = False,
          created_at = 0\<rparr>, new] \<and>
      held_items w' = [lunch_item]"
    using r n c h t by simp
  then have valid: "\<exists>new w'. startFocusSession ''U1'' (Num 60000) held_world = (Inr (Some new), w') \<and>
      fs_id new = 2 \<and> started_at new = 1000 \<and> ends_at new = 61000 \<and> is_active new \<and>
      focus_sessions w' =
        [\<lparr>fs_id = 0, user_id = ''U1'', started_at = 0, ends_at = 3601000, is_active = False,
          created_at = 0\<rparr>, new] \<and>
      held_items w' = [lunch_item]"
    by blast
  have hyp2: "fst (getActiveFocusSession ''U1'' (snd (read_clock held_world))) = Some ?s \<and>
      db_faults held_world = [] \<and>
      new_Date (js_plus (Num (fst (read_clock held_world))) PosInf) = None"
    using held_lookup f d2 by simp
  from startFocusSession_ends_prior
    [where u = "''U1''" and ms = PosInf and w = held_world and s = ?s] hyp2
  obtain v where q: "startFocusSession ''U1'' PosInf held_world = (Inl RangeError, v)"
    "focus_sessions v =
       map (\<lambda>r. if fs_id r = fs_id ?s then r\<lparr>is_active := False\<rparr> else r)
         (focus_sessions held_world)"
    "held_items v = held_items held_world"
    by blast
  have "startFocusSession ''U1'' PosInf held_world = (Inl RangeError, v) \<and>
      focus_sessions v =
        [\<lparr>fs_id = 0, user_id = ''U1'', started_at = 0, ends_at = 3601000, is_active = False,
          created_at = 0\<rparr>] \<and>
      held_items v = [lunch_item]"
    using q h t by simp
  then have invalid: "\<exists>w'. startFocusSession ''U1'' PosInf held_world = (Inl RangeError, w') \<and>
      focus_sessions w' =
        [\<lparr>fs_id = 0, user_id = ''U1'', started_at = 0, ends_at = 3601000, is_active = False,
          created_at = 0\<rparr>] \<and>
      held_items w' = [lunch_item]"
    by blast
  from held_lookup f n sf d1 d2 valid invalid show ?thesis by simp
qed

text \<open>
  The value \<open>startFocusSession\<close> returns does not carry the held items of the prior session:
  on two stores that differ only in those items, where \<open>endFocusSession\<close> returns different
  lists, it returns the same new row; and ending the new session afterwards returns none of
  them.
\<close>

theorem start_returns_no_held_items_counterexample:
  "fst (endFocusSession ''U1'' held_world) = [lunch_item] \<and>
   fst (endFocusSession ''U1'' (held_world\<lparr>held_items := []\<rparr>)) = [] \<and>
   fst (startFocusSession ''U1'' (Num 60000) held_world) =
     fst (startFocusSession ''U1'' (Num 60000) (held_world\<lparr>held_items := []\<rparr>)) \<and>
   fst (startFocusSession ''U1'' (Num 60000) held_world) =
     Inr (Some \<lparr>fs_id = 2, user_id = ''U1'', started_at = 1000, ends_at = 61000,
                is_active = True, created_at = 1000\<rparr>) \<and>
   fst (endFocusSession ''U1'' (snd (startFocusSession ''U1'' (Num 60000) held_world))) = []"
proof -
  have a: "fst (endFocusSession ''U1'' held_world) = [lunch_item]" by code_simp
  have b: "fst (endFocusSession ''U1'' (held_world\<lparr>held_items := []\<rparr>)) = []" by code_simp
  have c: "fst (startFocusSession ''U1'' (Num 60000) held_world) =
     Inr (Some \<lparr>fs_id = 2, user_id = ''U1'', started_at = 1000, ends_at = 61000,
                is_active = True, created_at = 1000\<rparr>)" by code_simp
  have d: "fst (startFocusSession ''U1'' (Num 60000) (held_world\<lparr>held_items := []\<rparr>)) =
     Inr (Some \<lparr>fs_id = 2, user_id = ''U1'', started_at = 1000, ends_at = 61000,
                is_active = True, created_at = 1000\<rparr>)" by code_simp
  have e: "fst (endFocusSession ''U1''
      (snd (startFocusSession ''U1'' (Num 60000) held_world))) = []"
    by code_simp
  from a b c d e show ?thesis by simp
qed

text \<open>
  The condition on the store is needed. The outcome of the deactivating update is not looked
  at: when that request fails, the prior session stays active beside the new row, and the
  second \<open>endFocusSession\<close> after the start returns its held item.
\<close>

lemma startFocusSession_failed_update_example:
  "focus_sessions (snd (startFocusSession ''U1'' (Num 60000)
      (held_world\<lparr>db_faults := [False, True]\<rparr>))) =
     [\<lparr>fs_id = 0, user_id = ''U1'', started_at = 0, ends_at = 3601000, is_active = True,
       created_at = 0\<rparr>,
      \<lparr>fs_id = 2, user_id = ''U1'', started_at = 1000, ends_at = 61000, is_active = True,
       created_at = 1000\<rparr>] \<and>
   surfaced [EndCall ''U1'', EndCall ''U1'']
     (snd (startFocusSession ''U1'' (Num 60000) (held_world\<lparr>db_faults := [False, True]\<rparr>))) =
     [lunch_item]"
proof -
  have a: "focus_sessions (snd (startFocusSession ''U1'' (Num 60000)
      (held_world\<lparr>db_faults := [False, True]\<rparr>))) =
     [\<lparr>fs_id = 0, user_id = ''U1'', started_at = 0, ends_at = 3601000, is_active = True,
       created_at = 0\<rparr>,
      \<lparr>fs_id = 2, user_id = ''U1'', started_at = 1000, ends_at = 61000, is_active = True,
       created_at = 1000\<rparr>]"
    by code_simp
  have b: "surfaced [EndCall ''U1'', EndCall ''U1'']
     (snd (startFocusSession ''U1'' (Num 60000) (held_world\<lparr>db_faults := [False, True]\<rparr>))) =
     [lunch_item]"
    by code_simp
  from a b show ?thesis by simp
qed

section \<open>Properties of the batch summary\<close>

lemma group_items_same_key:
  assumes "list_all (\<lambda>i. item_key i = k) items"
  shows "group_items items [(k, xs)] = Inr [(k, xs @ items)]"
  using assms by (induction items arbitrary: xs) simp_all

lemma group_items_single_channel:
  assumes "list_all (\<lambda>i. item_key i = k) items" and "items \<noteq> []"
    and "k \<notin> set object_prototype_names"
  shows "group_items items [] = Inr [(k, items)]"
proof -
  obtain i rest where c: "items = i # rest" using assms(2) by (cases items) simp_all
  with assms(1) have "item_key i = k" and r: "list_all (\<lambda>i. item_key i = k) rest" by simp_all
  then have "group_items items [] = group_items rest [(k, [i])]"
    using assms(3) c by simp
  with group_items_same_key [OF r, of "[i]"] c show ?thesis by simp
qed

lemma group_items_inherited_name:
  assumes "item_key i \<in> set object_prototype_names"
  shows "group_items (i # rest) [] = Inl TypeError"
  using assms by simp

lemma object_entries_single: "object_entries [p] = [p]"
  by (cases "array_index (fst p)") (simp_all add: object_entries_def)

lemma sendBatchSummary_single_channel:
  assumes "list_all (\<lambda>i. item_key i = k) items" and "length items = 7"
    and "k \<notin> set object_prototype_names"
  shows "sendBatchSummary u items w =
     sendDM u (join (header_lines 7
                     @ [''*#'' @ k @ ''* (7):'']
                     @ map item_line (take 5 items)
                     @ [''  _...and 2 more_'', []]) newline) w"
proof -
  have ne: "items \<noteq> []" using assms(2) by auto
  have g: "group_items items [] = Inr [(k, items)]"
    using assms(1) ne assms(3) by (rule group_items_single_channel)
  have s7: "show_nat 7 = ''7''" and s2: "show_nat 2 = ''2''" by code_simp+
  have c: "channel_lines (k, items) =
      [''*#'' @ k @ ''* (7):''] @ map item_line (take 5 items) @ [''  _...and 2 more_'', []]"
    using assms(2) by (simp add: channel_lines_def more_line_def s7 s2)
  show ?thesis
    using assms(2) by (simp add: sendBatchSummary_def g object_entries_single c)
qed

lemma sendBatchSummary_empty: "sendBatchSummary u [] w = sendDM u no_messages_text w"
  by (simp add: sendBatchSummary_def)

lemma sendBatchSummary_inherited_name:
  assumes "item_key i \<in> set object_prototype_names"
  shows "sendBatchSummary u (i # rest) w = (Inl TypeError, w)"
  using assms by (simp add: sendBatchSummary_def)

text \<open>
  Claim C8 states that seven held items of one channel are summarized by five item lines
  followed by a \<open>...and 2 more\<close> line, and that for no held items the fixed no-messages text
  is sent. The lemmas above show both for every channel whose grouping key is not a property
  name inherited from \<^verbatim>\<open>Object.prototype\<close>. For seven items of a channel named \<open>constructor\<close>
  the grouping loop throws a \<^verbatim>\<open>TypeError\<close>: no summary is composed and no message is sent.
\<close>

theorem sendBatchSummary_constructor_channel:
  "length (replicate 7 constructor_item) = 7 \<and>
   list_all (\<lambda>i. item_key i = ''constructor'') (replicate 7 constructor_item) \<and>
   sendBatchSummary ''U1'' (replicate 7 constructor_item) quiet_world
     = (Inl TypeError, quiet_world) \<and>
   sent_dms (snd (sendBatchSummary ''U1'' (replicate 7 constructor_item) quiet_world)) = []"
proof -
  have k: "item_key constructor_item = ''constructor''" by code_simp
  have m: "item_key constructor_item \<in> set object_prototype_names"
    unfolding k by (simp add: object_prototype_names_def)
  have r: "replicate 7 constructor_item = constructor_item # replicate 6 constructor_item"
    by (simp add: numeral_nat)
  have t: "sendBatchSummary ''U1'' (replicate 7 constructor_item) quiet_world
     = (Inl TypeError, quiet_world)"
    unfolding r using m by (rule sendBatchSummary_inherited_name)
  have s: "sent_dms quiet_world = []" by (simp add: quiet_world_def)
  have a: "list_all (\<lambda>i. item_key i = ''constructor'') (replicate 7 constructor_item)"
    using k by (simp add: list_all_iff)
  from t s a show ?thesis by simp
qed

lemma sendBatchSummary_general_example:
  "sendBatchSummary ''U1'' (replicate 7 lunch_item) quiet_world =
     (Inr (), quiet_world\<lparr>sent_dms :=
        [(''U1'', join (header_lines 7 @ [''*#general* (7):'']
                        @ replicate 5 (item_line lunch_item)
                        @ [''  _...and 2 more_'', []]) newline)]\<rparr>)"
proof -
  have k: "item_key lunch_item = ''general''" by code_simp
  have a: "list_all (\<lambda>i. item_key i = ''general'') (replicate 7 lunch_item)"
    using k by (simp add: list_all_iff)
  have n: "''general'' \<notin> set object_prototype_names" by (simp add: object_prototype_names_def)
  have d: "dm_replies quiet_world = []" "sent_dms quiet_world = []"
    by (simp_all add: quiet_world_def)
  from sendBatchSummary_single_channel [OF a _ n, of "''U1''" quiet_world]
  have "sendBatchSummary ''U1'' (replicate 7 lunch_item) quiet_world =
     sendDM ''U1'' (join (header_lines 7 @ [''*#general* (7):'']
                     @ map item_line (take 5 (replicate 7 lunch_item))
                     @ [''  _...and 2 more_'', []]) newline) quiet_world"
    by simp
  then show ?thesis using d by (simp add: sendDM_def)
qed

end
